theory Spec2Isabelle
  imports Main "HOL-Library.Char_ord" "HOL-Library.List_Lexorder"
begin

section \<open>Data model (convex/schema.ts)\<close>

text \<open>
  The four literals of the \<open>outcome\<close> union of the schema.
\<close>

datatype call_outcome = Pending | Answered | No_answer | Failed

text \<open>
  One element of \<open>callHistory\<close>: \<open>timestamp\<close> is required, \<open>callSid\<close> and
  \<open>outcome\<close> are \<open>v.optional\<close>.
\<close>

record call_record =
  timestamp :: string
  callSid :: "string option"
  outcome :: "call_outcome option"

text \<open>
  The argument object of \<open>appointments.upsert\<close>: every field of the appointments
  table except \<open>callHistory\<close>. A \<open>v.optional\<close> field is an option; \<open>None\<close> is a key
  that is absent from the object.
\<close>

record appointment_args =
  fhirId :: string
  status :: string
  serviceType :: "string option"
  start :: string
  end_time :: string
  created :: "string option"
  patientId :: "string option"
  patientName :: "string option"
  patientPhone :: "string option"
  contactMethod :: "string option"
  contacted :: "bool option"
  serviceRequestId :: "string option"
  serviceRequestCode :: "string option"
  serviceRequestCategory :: "string option"
  organizationId :: "string option"
  organizationName :: "string option"

text \<open>
  A document of the appointments table: the fields above and the optional call history.
\<close>

record appointment = appointment_args +
  callHistory :: "call_record list option"

text \<open>
  The argument object of \<open>patients.upsert\<close>, which is also the shape of a document of
  the patients table.
\<close>

record patient =
  p_fhirId :: string
  p_identifier :: "string option"
  p_givenName :: string
  p_familyName :: string
  p_phone :: "string option"
  p_gender :: "string option"
  p_birthDate :: "string option"

text \<open>
  A table is the list of its documents in creation order. No function of the repository
  deletes a document, so the \<open>_id\<close> of a document is modelled by its position in the
  table, and \<open>ctx.db.patch(id, ...)\<close> is an update at that position.
\<close>

type_synonym appointments_table = "appointment list"
type_synonym patients_table = "patient list"

datatype error =
  ArgumentValidationError
  | AuthFailed
  | FetchFailed

section \<open>Database primitives\<close>

text \<open>
  \<open>query(t).withIndex("by_fhirId", q => q.eq("fhirId", k)).first()\<close>: the documents with
  that key in creation order, and the first of them if there is one. The result is the
  position (the \<open>_id\<close>) of the document.
\<close>

fun first_index :: "('a \<Rightarrow> bool) \<Rightarrow> 'a list \<Rightarrow> nat option" where
  "first_index P [] = None"
| "first_index P (x # xs) =
     (if P x then Some 0 else map_option Suc (first_index P xs))"

definition by_fhirId :: "appointments_table \<Rightarrow> string \<Rightarrow> nat option" where
  "by_fhirId t k = first_index (\<lambda>d. fhirId d = k) t"

definition patient_by_fhirId :: "patients_table \<Rightarrow> string \<Rightarrow> nat option" where
  "patient_by_fhirId t k = first_index (\<lambda>d. p_fhirId d = k) t"

text \<open>
  \<open>getByFhirId\<close>: the document itself, or null.
\<close>

definition getByFhirId :: "appointments_table \<Rightarrow> string \<Rightarrow> appointment option" where
  "getByFhirId t k = map_option (\<lambda>i. t ! i) (by_fhirId t k)"

text \<open>
  An optional argument that is \<open>undefined\<close> is dropped when the arguments of a mutation
  are serialized, so the object that reaches \<open>ctx.db.patch\<close> has no key for it. A key
  that is absent leaves the stored field as it is; a key that is present overwrites it.
\<close>

definition patch_field :: "'a option \<Rightarrow> 'a option \<Rightarrow> 'a option" where
  "patch_field new old = (case new of None \<Rightarrow> old | Some v \<Rightarrow> Some v)"

text \<open>
  \<open>ctx.db.patch(existing._id, args)\<close> with the argument object of \<open>upsert\<close>: a shallow
  merge of the sixteen argument fields into the document.
\<close>

definition patch_appointment :: "appointment \<Rightarrow> appointment_args \<Rightarrow> appointment" where
  "patch_appointment d a =
     d\<lparr> fhirId := fhirId a,
        status := status a,
        serviceType := patch_field (serviceType a) (serviceType d),
        start := start a,
        end_time := end_time a,
        created := patch_field (created a) (created d),
        patientId := patch_field (patientId a) (patientId d),
        patientName := patch_field (patientName a) (patientName d),
        patientPhone := patch_field (patientPhone a) (patientPhone d),
        contactMethod := patch_field (contactMethod a) (contactMethod d),
        contacted := patch_field (contacted a) (contacted d),
        serviceRequestId := patch_field (serviceRequestId a) (serviceRequestId d),
        serviceRequestCode := patch_field (serviceRequestCode a) (serviceRequestCode d),
        serviceRequestCategory :=
          patch_field (serviceRequestCategory a) (serviceRequestCategory d),
        organizationId := patch_field (organizationId a) (organizationId d),
        organizationName := patch_field (organizationName a) (organizationName d) \<rparr>"

text \<open>
  \<open>ctx.db.insert("appointments", args)\<close>: a new document with the argument fields and
  no call history.
\<close>

definition insert_appointment :: "appointment_args \<Rightarrow> appointment" where
  "insert_appointment a = appointment_args.extend a \<lparr> callHistory = None \<rparr>"

definition patch_patient :: "patient \<Rightarrow> patient \<Rightarrow> patient" where
  "patch_patient d a =
     d\<lparr> p_fhirId := p_fhirId a,
        p_identifier := patch_field (p_identifier a) (p_identifier d),
        p_givenName := p_givenName a,
        p_familyName := p_familyName a,
        p_phone := patch_field (p_phone a) (p_phone d),
        p_gender := patch_field (p_gender a) (p_gender d),
        p_birthDate := patch_field (p_birthDate a) (p_birthDate d) \<rparr>"

section \<open>Mutations of convex/appointments.ts and convex/patients.ts\<close>

text \<open>
  \<open>appointments.upsert\<close>: patch the first document with the key, or insert one. The
  \<open>_id\<close> it returns is used by no caller and is left out of the result. A mutation is
  one transaction; its result is the error it throws or the table it leaves.
\<close>

definition appointments_upsert ::
  "appointment_args \<Rightarrow> appointments_table \<Rightarrow> error + appointments_table" where
  "appointments_upsert args t =
     (case by_fhirId t (fhirId args) of
        Some i \<Rightarrow> Inr (t[i := patch_appointment (t ! i) args])
      | None \<Rightarrow> Inr (t @ [insert_appointment args]))"

text \<open>
  \<open>patients.upsert\<close>: the same on the patients table.
\<close>

definition patients_upsert :: "patient \<Rightarrow> patients_table \<Rightarrow> error + patients_table" where
  "patients_upsert args t =
     (case patient_by_fhirId t (p_fhirId args) of
        Some i \<Rightarrow> Inr (t[i := patch_patient (t ! i) args])
      | None \<Rightarrow> Inr (t @ [args]))"

text \<open>
  \<open>markContacted\<close>: patches the flag of the document when it exists, and does
  nothing otherwise.
\<close>

definition markContacted ::
  "string \<Rightarrow> bool \<Rightarrow> appointments_table \<Rightarrow> error + appointments_table" where
  "markContacted k c t =
     (case by_fhirId t k of
        Some i \<Rightarrow> Inr (t[i := (t ! i)\<lparr> contacted := Some c \<rparr>])
      | None \<Rightarrow> Inr t)"

text \<open>
  \<open>recordCall\<close>: \<open>appointment.callHistory || []\<close> extended by the new record, and
  \<open>contacted: true\<close>.
\<close>

definition current_history :: "appointment \<Rightarrow> call_record list" where
  "current_history d = (case callHistory d of None \<Rightarrow> [] | Some h \<Rightarrow> h)"

definition newCall :: "string option \<Rightarrow> string \<Rightarrow> call_record" where
  "newCall sid ts = \<lparr> timestamp = ts, callSid = sid, outcome = Some Pending \<rparr>"

definition recordCall ::
  "string \<Rightarrow> string option \<Rightarrow> string \<Rightarrow> appointments_table \<Rightarrow> error + appointments_table"
  where
  "recordCall k sid ts t =
     (case by_fhirId t k of
        Some i \<Rightarrow>
          Inr (t[i := (t ! i)\<lparr> callHistory := Some (current_history (t ! i) @ [newCall sid ts]),
                                contacted := Some True \<rparr>])
      | None \<Rightarrow> Inr t)"

text \<open>
  The \<open>outcome\<close> argument of \<open>updateCallOutcome\<close> arrives as a string and is checked
  against the union of the four literals before the handler runs.
\<close>

definition parse_outcome :: "string \<Rightarrow> call_outcome option" where
  "parse_outcome s =
     (if s = ''pending'' then Some Pending
      else if s = ''answered'' then Some Answered
      else if s = ''no_answer'' then Some No_answer
      else if s = ''failed'' then Some Failed
      else None)"

fun outcome_literal :: "call_outcome \<Rightarrow> string" where
  "outcome_literal Pending = ''pending''"
| "outcome_literal Answered = ''answered''"
| "outcome_literal No_answer = ''no_answer''"
| "outcome_literal Failed = ''failed''"

text \<open>
  The handler of \<open>updateCallOutcome\<close>. The document must exist and have a call
  history (an empty array is truthy); the index must satisfy
  \<open>callIndex >= 0 && callIndex < length\<close>; then the record at the index is rebuilt with
  the new outcome and the whole array is patched back. In every other case nothing is
  written. The index is an integer here: a fractional \<open>v.number()\<close> is outside the model.
\<close>

definition updateCallOutcome_handler ::
  "string \<Rightarrow> int \<Rightarrow> call_outcome \<Rightarrow> appointments_table \<Rightarrow> appointments_table" where
  "updateCallOutcome_handler k callIndex oc t =
     (case by_fhirId t k of
        None \<Rightarrow> t
      | Some i \<Rightarrow>
          (case callHistory (t ! i) of
             None \<Rightarrow> t
           | Some h \<Rightarrow>
               if 0 \<le> callIndex \<and> callIndex < int (length h)
               then t[i := (t ! i)\<lparr> callHistory :=
                       Some (h[nat callIndex := (h ! nat callIndex)\<lparr> outcome := Some oc \<rparr>]) \<rparr>]
               else t))"

definition updateCallOutcome ::
  "string \<Rightarrow> int \<Rightarrow> string \<Rightarrow> appointments_table \<Rightarrow> error + appointments_table" where
  "updateCallOutcome k callIndex oc_str t =
     (case parse_outcome oc_str of
        None \<Rightarrow> Inl ArgumentValidationError
      | Some oc \<Rightarrow> Inr (updateCallOutcome_handler k callIndex oc t))"

text \<open>
  A run of upserts, each its own transaction, stopping at the first one that fails.
\<close>

fun appointments_upserts ::
  "appointment_args list \<Rightarrow> appointments_table \<Rightarrow> error + appointments_table" where
  "appointments_upserts [] t = Inr t"
| "appointments_upserts (a # as) t =
     (case appointments_upsert a t of
        Inl e \<Rightarrow> Inl e
      | Inr t' \<Rightarrow> appointments_upserts as t')"

fun patients_upserts :: "patient list \<Rightarrow> patients_table \<Rightarrow> error + patients_table" where
  "patients_upserts [] t = Inr t"
| "patients_upserts (a # as) t =
     (case patients_upsert a t of
        Inl e \<Rightarrow> Inl e
      | Inr t' \<Rightarrow> patients_upserts as t')"

section \<open>Phone normalization (formatChileanPhone)\<close>

text \<open>
  \<open>phone.replace(/\D/g, "")\<close> keeps the characters \<open>0\<close> to \<open>9\<close>. A character outside
  ASCII is never a digit, so the byte-wise filter keeps the same characters.
\<close>

definition is_digit :: "char \<Rightarrow> bool" where
  "is_digit c = (c \<in> set ''0123456789'')"

definition startsWith :: "string \<Rightarrow> string \<Rightarrow> bool" where
  "startsWith s p = (take (length p) s = p)"

definition formatChileanPhone :: "string \<Rightarrow> string" where
  "formatChileanPhone phone =
     (let digits = filter is_digit phone in
      if startsWith digits ''56'' \<and> length digits = 11 then ''+'' @ digits
      else if length digits = 9 \<and> startsWith digits ''9'' then ''+56'' @ digits
      else if length digits = 8 then ''+569'' @ digits
      else ''+56'' @ digits)"

section \<open>Status polling (pollCallStatus)\<close>

text \<open>
  What one \<open>GET /call-status/{callSid}\<close> gives: the request or the decoding of its body
  throws, or the body has an \<open>outcome\<close> that is a string or is absent.
\<close>

datatype status_reply = Fetch_error | Status "string option"

text \<open>
  What the poller does, in order: a status query, a \<open>setTimeout\<close> with its delay in
  milliseconds, and an \<open>updateCallOutcome\<close> that succeeded, with the outcome it wrote.
\<close>

datatype poll_event = Query | Wait nat | Commit string

definition maxAttempts :: nat where
  "maxAttempts = 30"

text \<open>
  \<open>statusData.outcome && statusData.outcome !== "pending"\<close>: the outcome to commit, if
  the reply has one.
\<close>

definition non_pending :: "string option \<Rightarrow> string option" where
  "non_pending oc =
     (case oc of
        None \<Rightarrow> None
      | Some s \<Rightarrow> if s \<noteq> [] \<and> s \<noteq> ''pending'' then Some s else None)"

text \<open>
  The closure \<open>poll\<close>. The reply to the query made when the counter is \<open>attempts\<close> is
  \<open>env attempts\<close>. Every exception inside the \<open>try\<close> (a failed fetch, a mutation rejected
  by its argument validator) ends in the \<open>catch\<close>, which logs and schedules nothing. The
  table is the one the poller's own mutation sees; writes of other clients between two
  queries are not part of the model.
\<close>

function poll ::
  "(nat \<Rightarrow> status_reply) \<Rightarrow> string \<Rightarrow> int \<Rightarrow> nat \<Rightarrow> appointments_table
     \<Rightarrow> poll_event list \<times> appointments_table" where
  "poll env k callIndex attempts t =
     (case env attempts of
        Fetch_error \<Rightarrow> ([Query], t)
      | Status oc \<Rightarrow>
          (case non_pending oc of
             Some s \<Rightarrow>
               (case updateCallOutcome k callIndex s t of
                  Inl e \<Rightarrow> ([Query], t)
                | Inr t' \<Rightarrow> ([Query, Commit s], t'))
           | None \<Rightarrow>
               if Suc attempts < maxAttempts
               then (case poll env k callIndex (Suc attempts) t of
                       (ev, t') \<Rightarrow> (Query # Wait 2000 # ev, t'))
               else ([Query], t)))"
  by pat_completeness auto
termination
  by (relation "measure (\<lambda>(env, k, callIndex, attempts, t). maxAttempts - attempts)") auto

declare poll.simps [simp del]

text \<open>
  \<open>pollCallStatus\<close>: \<open>let attempts = 0\<close> and the first call of \<open>poll\<close>.
\<close>

definition pollCallStatus ::
  "(nat \<Rightarrow> status_reply) \<Rightarrow> string \<Rightarrow> int \<Rightarrow> appointments_table
     \<Rightarrow> poll_event list \<times> appointments_table" where
  "pollCallStatus env k callIndex t = poll env k callIndex 0 t"

text \<open>
  The trace of \<open>n + 1\<close> queries with a wait of 2000 ms between each two of them.
\<close>

fun schedule :: "nat \<Rightarrow> poll_event list" where
  "schedule 0 = [Query]"
| "schedule (Suc n) = Query # Wait 2000 # schedule n"

definition queries :: "poll_event list \<Rightarrow> nat" where
  "queries ev = length (filter (\<lambda>e. e = Query) ev)"

fun is_commit :: "poll_event \<Rightarrow> bool" where
  "is_commit (Commit s) = True"
| "is_commit _ = False"

definition commits :: "poll_event list \<Rightarrow> nat" where
  "commits ev = length (filter is_commit ev)"

text \<open>
  A reply that makes the poller go on: it has no outcome, an empty one, or \<open>pending\<close>.
\<close>

definition observed_pending :: "status_reply \<Rightarrow> bool" where
  "observed_pending r = (case r of Fetch_error \<Rightarrow> False | Status oc \<Rightarrow> non_pending oc = None)"

text \<open>
  The result \<open>r\<close> of a poller that started with the counter at \<open>attempts\<close> and stopped at
  its query number \<open>n\<close> (counted from 0), read off the reply to that query: the fetch
  failed; or the reply was pending and no attempt was left; or the reply had an outcome
  and the mutation was rejected; or the mutation was committed, and then the commit is
  the last event and the table is the one the mutation returned.
\<close>

definition poll_result ::
  "(nat \<Rightarrow> status_reply) \<Rightarrow> string \<Rightarrow> int \<Rightarrow> nat \<Rightarrow> appointments_table
     \<Rightarrow> nat \<Rightarrow> poll_event list \<times> appointments_table \<Rightarrow> bool" where
  "poll_result env k callIndex attempts t n r =
     (case env (attempts + n) of
        Fetch_error \<Rightarrow> r = (schedule n, t)
      | Status oc \<Rightarrow>
          (case non_pending oc of
             None \<Rightarrow> r = (schedule n, t) \<and> \<not> Suc (attempts + n) < maxAttempts
           | Some s \<Rightarrow>
               (case updateCallOutcome k callIndex s t of
                  Inl e \<Rightarrow> r = (schedule n, t)
                | Inr t' \<Rightarrow> r = (schedule n @ [Commit s], t'))))"

section \<open>Call initiation (handleCall)\<close>

text \<open>
  The answer to \<open>POST /call\<close>: the request fails or is not \<open>ok\<close>, or it carries the
  provider's call identifier (which may be absent from the body).
\<close>

datatype call_response = Call_rejected | Call_placed "string option"

text \<open>
  \<open>handleCall\<close> on the rendered appointment \<open>apt\<close>. Without a phone nothing is sent.
  After a placed call the record is written with \<open>getSantiagoTimestamp()\<close>, here the
  clock reading \<open>now\<close>, and polling starts for the returned identifier and index
  \<open>appointment.callHistory?.length || 0\<close>. The result is the table and the arguments of
  the poller, if one was started.
\<close>

definition handleCall ::
  "appointment \<Rightarrow> call_response \<Rightarrow> string \<Rightarrow> appointments_table
     \<Rightarrow> appointments_table \<times> (string option \<times> int) option" where
  "handleCall apt response now t =
     (if patientPhone apt = None \<or> patientPhone apt = Some []
      then (t, None)
      else
        (case response of
           Call_rejected \<Rightarrow> (t, None)
         | Call_placed sid \<Rightarrow>
             (case recordCall (fhirId apt) sid now t of
                Inl e \<Rightarrow> (t, None)
              | Inr t' \<Rightarrow> (t', Some (sid, int (length (current_history apt)))))))"

text \<open>
  Successive call initiations on the appointment with key \<open>k\<close>, each on the document as
  the list query shows it at that moment, each with the answer of the call service and
  the clock reading of that moment.
\<close>

fun handleCalls ::
  "string \<Rightarrow> (call_response \<times> string) list \<Rightarrow> appointments_table \<Rightarrow> appointments_table"
  where
  "handleCalls k [] t = t"
| "handleCalls k ((response, now) # cs) t =
     (case getByFhirId t k of
        None \<Rightarrow> handleCalls k cs t
      | Some apt \<Rightarrow> handleCalls k cs (fst (handleCall apt response now t)))"

definition history_of :: "appointments_table \<Rightarrow> string \<Rightarrow> call_record list" where
  "history_of t k = (case getByFhirId t k of None \<Rightarrow> [] | Some d \<Rightarrow> current_history d)"

text \<open>
  The initiations that succeeded: the call was placed.
\<close>

fun placed :: "(call_response \<times> string) list \<Rightarrow> (string option \<times> string) list" where
  "placed [] = []"
| "placed ((Call_rejected, now) # cs) = placed cs"
| "placed ((Call_placed sid, now) # cs) = (sid, now) # placed cs"

definition has_phone :: "appointment \<Rightarrow> bool" where
  "has_phone d = (patientPhone d \<noteq> None \<and> patientPhone d \<noteq> Some [])"

section \<open>The resolver (syncFhirData)\<close>

text \<open>
  The parts of the FHIR resources that \<open>syncFhirData\<close> reads. A property the code
  reads with \<open>?.\<close> or \<open>|| []\<close> is an option or a list: an absent array and an empty one
  are read alike.
\<close>

record fhir_coding =
  cd_display :: "string option"

record fhir_concept =
  cc_coding :: "fhir_coding list"
  cc_text :: "string option"

record fhir_sub_extension =
  sx_url :: "string option"
  sx_valueBoolean :: "bool option"

record fhir_extension =
  ex_url :: "string option"
  ex_valueCodeableConcept :: "fhir_concept option"
  ex_extension :: "fhir_sub_extension list"

record fhir_reference =
  rf_type :: "string option"
  rf_reference :: "string option"

record fhir_participant =
  pa_actor :: "fhir_reference option"

record fhir_appointment =
  ar_id :: "string option"
  ar_status :: "string option"
  ar_start :: "string option"
  ar_end :: "string option"
  ar_created :: "string option"
  ar_extension :: "fhir_extension list"
  ar_serviceType :: "fhir_concept list"
  ar_basedOn :: "fhir_reference list"
  ar_participant :: "fhir_participant list"

record fhir_service_request =
  sr_code :: "fhir_concept option"
  sr_category :: "fhir_concept list"

record fhir_human_name =
  hn_given :: "string list"
  hn_family :: "string option"

record fhir_contact_point =
  cp_system :: "string option"
  cp_value :: "string option"

record fhir_identifier =
  id_value :: "string option"

record fhir_patient =
  fp_name :: "fhir_human_name list"
  fp_telecom :: "fhir_contact_point list"
  fp_identifier :: "fhir_identifier list"
  fp_gender :: "string option"
  fp_birthDate :: "string option"

record fhir_practitioner_role =
  pr_organization :: "fhir_reference option"

record fhir_organization =
  og_name :: "string option"

text \<open>
  The clinical data source during one run: the token request, the appointment bundle
  (\<open>appointmentsBundle.entry || []\<close>, each entry with its resource), and
  \<open>fetchResource(token, type, id)\<close> for the four resource types. \<open>None\<close> is a response
  that is not \<open>ok\<close>, for which the function throws.
\<close>

record fhir_server =
  access_token :: "string option"
  appointments_bundle :: "fhir_appointment list option"
  get_ServiceRequest :: "string \<Rightarrow> fhir_service_request option"
  get_Patient :: "string \<Rightarrow> fhir_patient option"
  get_PractitionerRole :: "string \<Rightarrow> fhir_practitioner_role option"
  get_Organization :: "string \<Rightarrow> fhir_organization option"

text \<open>
  The local variables of one iteration of the loop over the entries.
\<close>

record entry_vars =
  v_contactMethod :: "string option"
  v_contacted :: "bool option"
  v_serviceType :: "string option"
  v_serviceRequestId :: "string option"
  v_serviceRequestCode :: "string option"
  v_serviceRequestCategory :: "string option"
  v_patientId :: "string option"
  v_patientName :: "string option"
  v_patientPhone :: "string option"
  v_organizationId :: "string option"
  v_organizationName :: "string option"

text \<open>
  The two tables and the counters \<open>results.appointments\<close> and \<open>results.patients\<close>.
\<close>

record sync_state =
  db_appointments :: appointments_table
  db_patients :: patients_table
  res_appointments :: nat
  res_patients :: nat

text \<open>
  \<open>String.prototype.includes\<close>.
\<close>

fun str_includes :: "string \<Rightarrow> string \<Rightarrow> bool" where
  "str_includes [] sub = (sub = [])"
| "str_includes (c # cs) sub = (startsWith (c # cs) sub \<or> str_includes cs sub)"

definition url_includes :: "string option \<Rightarrow> string \<Rightarrow> bool" where
  "url_includes url sub = (case url of None \<Rightarrow> False | Some u \<Rightarrow> str_includes u sub)"

text \<open>
  \<open>x || undefined\<close> and \<open>x || ""\<close> on a string that may be absent.
\<close>

definition or_undefined :: "string option \<Rightarrow> string option" where
  "or_undefined x = (case x of None \<Rightarrow> None | Some s \<Rightarrow> if s = [] then None else Some s)"

definition or_empty :: "string option \<Rightarrow> string" where
  "or_empty x = (case x of None \<Rightarrow> [] | Some s \<Rightarrow> s)"

text \<open>
  \<open>c.coding?.[0]?.display\<close> and \<open>cs?.[0]?.coding?.[0]?.display\<close>.
\<close>

definition concept_display :: "fhir_concept \<Rightarrow> string option" where
  "concept_display c = (case cc_coding c of [] \<Rightarrow> None | d # _ \<Rightarrow> cd_display d)"

definition first_display :: "fhir_concept list \<Rightarrow> string option" where
  "first_display cs = (case cs of [] \<Rightarrow> None | c # _ \<Rightarrow> concept_display c)"

text \<open>
  \<open>extractIdFromReference\<close>: \<open>reference.split("/").pop() || reference\<close> when the
  reference has a slash.
\<close>

definition last_segment :: "string \<Rightarrow> string" where
  "last_segment s = rev (takeWhile (\<lambda>c. c \<noteq> CHR ''/'') (rev s))"

definition extractIdFromReference :: "string \<Rightarrow> string" where
  "extractIdFromReference reference =
     (if str_includes reference ''/''
      then (if last_segment reference = [] then reference else last_segment reference)
      else reference)"

text \<open>
  \<open>Array.prototype.join\<close>.
\<close>

fun join :: "string \<Rightarrow> string list \<Rightarrow> string" where
  "join sep [] = []"
| "join sep [x] = x"
| "join sep (x # y # ys) = x @ sep @ join sep (y # ys)"

text \<open>
  \<open>String.prototype.trim\<close> removes white space and line terminators from both ends:
  U+0009 to U+000D, U+0020, U+00A0, U+1680, U+2000 to U+200A, U+2028, U+2029, U+202F,
  U+205F, U+3000 and U+FEFF. A string is its UTF-8 bytes, so each of them is the byte
  sequence that encodes it.
\<close>

definition white_space :: "string list" where
  "white_space =
     [[CHR 0x09], [CHR 0x0A], [CHR 0x0B], [CHR 0x0C], [CHR 0x0D], [CHR 0x20],
      [CHR 0xC2, CHR 0xA0],
      [CHR 0xE1, CHR 0x9A, CHR 0x80],
      [CHR 0xE2, CHR 0x80, CHR 0x80], [CHR 0xE2, CHR 0x80, CHR 0x81],
      [CHR 0xE2, CHR 0x80, CHR 0x82], [CHR 0xE2, CHR 0x80, CHR 0x83],
      [CHR 0xE2, CHR 0x80, CHR 0x84], [CHR 0xE2, CHR 0x80, CHR 0x85],
      [CHR 0xE2, CHR 0x80, CHR 0x86], [CHR 0xE2, CHR 0x80, CHR 0x87],
      [CHR 0xE2, CHR 0x80, CHR 0x88], [CHR 0xE2, CHR 0x80, CHR 0x89],
      [CHR 0xE2, CHR 0x80, CHR 0x8A],
      [CHR 0xE2, CHR 0x80, CHR 0xA8], [CHR 0xE2, CHR 0x80, CHR 0xA9],
      [CHR 0xE2, CHR 0x80, CHR 0xAF],
      [CHR 0xE2, CHR 0x81, CHR 0x9F],
      [CHR 0xE3, CHR 0x80, CHR 0x80],
      [CHR 0xEF, CHR 0xBB, CHR 0xBF]]"

fun strip_one :: "string list \<Rightarrow> string \<Rightarrow> string option" where
  "strip_one [] s = None"
| "strip_one (w # ws) s =
     (if w \<noteq> [] \<and> startsWith s w then Some (drop (length w) s) else strip_one ws s)"

function strip_leading :: "string list \<Rightarrow> string \<Rightarrow> string" where
  "strip_leading ws s =
     (case strip_one ws s of
        None \<Rightarrow> s
      | Some r \<Rightarrow> strip_leading ws r)"
  by pat_completeness auto
termination
proof (relation "measure (\<lambda>(ws, s). length s)")
  show "wf (measure (\<lambda>(ws, s). length s))"
    by simp
next
  fix ws :: "string list" and s r :: string
  assume "strip_one ws s = Some r"
  then have "length r < length s"
  proof (induction ws)
    case Nil
    then show ?case by simp
  next
    case (Cons w ws)
    show ?case
    proof (cases "w \<noteq> [] \<and> startsWith s w")
      case True
      then have "length (take (length w) s) = length w"
        by (simp add: startsWith_def)
      then have "length w \<le> length s" by simp
      moreover have "w \<noteq> []" using True by simp
      moreover have "r = drop (length w) s" using Cons.prems True by simp
      ultimately show ?thesis by (cases w) auto
    next
      case False
      with Cons show ?thesis by auto
    qed
  qed
  then show "((ws, r), (ws, s)) \<in> measure (\<lambda>(ws, s). length s)"
    by simp
qed

declare strip_leading.simps [simp del]

definition trim :: "string \<Rightarrow> string" where
  "trim s = rev (strip_leading (map rev white_space) (rev (strip_leading white_space s)))"

definition initial_vars :: entry_vars where
  "initial_vars =
     \<lparr> v_contactMethod = None, v_contacted = None, v_serviceType = None,
       v_serviceRequestId = None, v_serviceRequestCode = None,
       v_serviceRequestCategory = None, v_patientId = None, v_patientName = None,
       v_patientPhone = None, v_organizationId = None, v_organizationName = None \<rparr>"

text \<open>
  The loop over \<open>appointment.extension\<close>. The two tests on the url are separate
  \<open>if\<close> statements, and an assignment may store \<open>undefined\<close>.
\<close>

fun contactado :: "fhir_sub_extension list \<Rightarrow> bool option \<Rightarrow> bool option" where
  "contactado [] c = c"
| "contactado (subExt # rest) c =
     contactado rest (if sx_url subExt = Some ''Contactado'' then sx_valueBoolean subExt else c)"

definition process_extension :: "fhir_extension \<Rightarrow> entry_vars \<Rightarrow> entry_vars" where
  "process_extension ext v =
     (let v1 = (if url_includes (ex_url ext) ''MediodeContacto''
                then v\<lparr> v_contactMethod :=
                        (case ex_valueCodeableConcept ext of
                           None \<Rightarrow> None
                         | Some cc \<Rightarrow> concept_display cc) \<rparr>
                else v)
      in if url_includes (ex_url ext) ''Contactado''
         then v1\<lparr> v_contacted := contactado (ex_extension ext) (v_contacted v1) \<rparr>
         else v1)"

fun process_extensions :: "fhir_extension list \<Rightarrow> entry_vars \<Rightarrow> entry_vars" where
  "process_extensions [] v = v"
| "process_extensions (ext # rest) v = process_extensions rest (process_extension ext v)"

text \<open>
  The loop over \<open>appointment.basedOn\<close>. The id is assigned before the \<open>try\<close>; a failed
  fetch is caught and logged, and the code and the category are not assigned.
\<close>

definition service_request_code :: "fhir_service_request \<Rightarrow> string option" where
  "service_request_code sr =
     (case sr_code sr of
        None \<Rightarrow> None
      | Some code \<Rightarrow>
          (case or_undefined (cc_text code) of
             Some txt \<Rightarrow> Some txt
           | None \<Rightarrow> or_undefined (concept_display code)))"

definition process_basedOn :: "fhir_server \<Rightarrow> fhir_reference \<Rightarrow> entry_vars \<Rightarrow> entry_vars" where
  "process_basedOn srv basedOn v =
     (let ref = or_empty (rf_reference basedOn) in
      if str_includes ref ''ServiceRequest''
      then
        (let serviceRequestId = extractIdFromReference ref;
             v1 = v\<lparr> v_serviceRequestId := Some serviceRequestId \<rparr>
         in case get_ServiceRequest srv serviceRequestId of
              None \<Rightarrow> v1
            | Some serviceRequest \<Rightarrow>
                v1\<lparr> v_serviceRequestCode := service_request_code serviceRequest,
                    v_serviceRequestCategory :=
                      or_undefined (first_display (sr_category serviceRequest)) \<rparr>)
      else v)"

fun process_basedOns :: "fhir_server \<Rightarrow> fhir_reference list \<Rightarrow> entry_vars \<Rightarrow> entry_vars" where
  "process_basedOns srv [] v = v"
| "process_basedOns srv (b # rest) v = process_basedOns srv rest (process_basedOn srv b v)"

text \<open>
  The \<open>Patient\<close> branch of the loop over \<open>appointment.participant\<close>. The id is assigned
  before the \<open>try\<close>; inside it the name and the phone are assigned and the patient is
  upserted; any exception is caught and logged.
\<close>

fun first_phone :: "fhir_contact_point list \<Rightarrow> fhir_contact_point option" where
  "first_phone [] = None"
| "first_phone (telecom # rest) =
     (if cp_system telecom = Some ''phone'' then Some telecom else first_phone rest)"

definition first_name :: "fhir_patient \<Rightarrow> fhir_human_name" where
  "first_name patient =
     (case fp_name patient of [] \<Rightarrow> \<lparr> hn_given = [], hn_family = None \<rparr> | n # _ \<Rightarrow> n)"

definition first_identifier :: "fhir_patient \<Rightarrow> string option" where
  "first_identifier patient = (case fp_identifier patient of [] \<Rightarrow> None | i # _ \<Rightarrow> id_value i)"

definition process_patient ::
  "fhir_server \<Rightarrow> string \<Rightarrow> entry_vars \<times> sync_state \<Rightarrow> entry_vars \<times> sync_state" where
  "process_patient srv ref vs =
     (case vs of (v, st) \<Rightarrow>
        (let patientId = extractIdFromReference ref;
             v1 = v\<lparr> v_patientId := Some patientId \<rparr>
         in case get_Patient srv patientId of
              None \<Rightarrow> (v1, st)
            | Some patient \<Rightarrow>
                (let name = first_name patient;
                     givenName = join '' '' (hn_given name);
                     familyName = or_empty (hn_family name);
                     v2 = v1\<lparr> v_patientName := Some (trim (givenName @ '' '' @ familyName)) \<rparr>;
                     v3 = (case first_phone (fp_telecom patient) of
                             None \<Rightarrow> v2
                           | Some telecom \<Rightarrow> v2\<lparr> v_patientPhone := cp_value telecom \<rparr>)
                 in case patients_upsert
                           \<lparr> p_fhirId = patientId,
                             p_identifier = first_identifier patient,
                             p_givenName = givenName,
                             p_familyName = familyName,
                             p_phone = v_patientPhone v3,
                             p_gender = fp_gender patient,
                             p_birthDate = fp_birthDate patient \<rparr>
                           (db_patients st) of
                      Inl e \<Rightarrow> (v3, st)
                    | Inr pt \<Rightarrow>
                        (v3, st\<lparr> db_patients := pt, res_patients := Suc (res_patients st) \<rparr>))))"

text \<open>
  The \<open>PractitionerRole\<close> branch: two nested \<open>try\<close> blocks, the outer one around the
  fetch of the role, the inner one around the fetch of its organization.
\<close>

definition process_practitioner_role ::
  "fhir_server \<Rightarrow> string \<Rightarrow> entry_vars \<Rightarrow> entry_vars" where
  "process_practitioner_role srv ref v =
     (let prId = extractIdFromReference ref in
      case get_PractitionerRole srv prId of
        None \<Rightarrow> v
      | Some practitionerRole \<Rightarrow>
          (let orgRef = (case pr_organization practitionerRole of
                           None \<Rightarrow> []
                         | Some org \<Rightarrow> or_empty (rf_reference org))
           in if orgRef \<noteq> []
              then
                (let organizationId = extractIdFromReference orgRef;
                     v1 = v\<lparr> v_organizationId := Some organizationId \<rparr>
                 in case get_Organization srv organizationId of
                      None \<Rightarrow> v1
                    | Some organization \<Rightarrow>
                        v1\<lparr> v_organizationName := or_undefined (og_name organization) \<rparr>)
              else v))"

definition process_participant ::
  "fhir_server \<Rightarrow> fhir_participant \<Rightarrow> entry_vars \<times> sync_state \<Rightarrow> entry_vars \<times> sync_state"
  where
  "process_participant srv participant vs =
     (let actorType = (case pa_actor participant of None \<Rightarrow> None | Some a \<Rightarrow> rf_type a);
          ref = (case pa_actor participant of None \<Rightarrow> [] | Some a \<Rightarrow> or_empty (rf_reference a));
          vs1 = (if actorType = Some ''Patient'' then process_patient srv ref vs else vs)
      in if actorType = Some ''PractitionerRole''
         then (process_practitioner_role srv ref (fst vs1), snd vs1)
         else vs1)"

fun process_participants ::
  "fhir_server \<Rightarrow> fhir_participant list \<Rightarrow> entry_vars \<times> sync_state
     \<Rightarrow> entry_vars \<times> sync_state" where
  "process_participants srv [] vs = vs"
| "process_participants srv (p # rest) vs =
     process_participants srv rest (process_participant srv p vs)"

text \<open>
  One iteration up to the upsert of the appointment: the variables it has resolved and
  the state after the patient upserts.
\<close>

definition resolve_entry ::
  "fhir_server \<Rightarrow> fhir_appointment \<Rightarrow> sync_state \<Rightarrow> entry_vars \<times> sync_state" where
  "resolve_entry srv appointment st =
     (let v1 = process_extensions (ar_extension appointment) initial_vars;
          v2 = v1\<lparr> v_serviceType := or_undefined (first_display (ar_serviceType appointment)) \<rparr>;
          v3 = process_basedOns srv (ar_basedOn appointment) v2
      in process_participants srv (ar_participant appointment) (v3, st))"

text \<open>
  The argument object of the appointment upsert. \<open>fhirId\<close>, \<open>status\<close>, \<open>start\<close> and
  \<open>end\<close> are \<open>v.string()\<close>: when the resource lacks one of them the mutation throws, and
  nothing catches it.
\<close>

definition upsert_args :: "fhir_appointment \<Rightarrow> entry_vars \<Rightarrow> appointment_args option" where
  "upsert_args appointment v =
     (case (ar_id appointment, ar_status appointment, ar_start appointment, ar_end appointment) of
        (Some i, Some s, Some b, Some e) \<Rightarrow>
          Some \<lparr> fhirId = i, status = s, serviceType = v_serviceType v,
                 start = b, end_time = e, created = ar_created appointment,
                 patientId = v_patientId v, patientName = v_patientName v,
                 patientPhone = v_patientPhone v, contactMethod = v_contactMethod v,
                 contacted = v_contacted v, serviceRequestId = v_serviceRequestId v,
                 serviceRequestCode = v_serviceRequestCode v,
                 serviceRequestCategory = v_serviceRequestCategory v,
                 organizationId = v_organizationId v,
                 organizationName = v_organizationName v \<rparr>
      | _ \<Rightarrow> None)"

definition process_entry ::
  "fhir_server \<Rightarrow> fhir_appointment \<Rightarrow> sync_state \<Rightarrow> error option \<times> sync_state" where
  "process_entry srv appointment st =
     (case resolve_entry srv appointment st of (v, st1) \<Rightarrow>
        (case upsert_args appointment v of
           None \<Rightarrow> (Some ArgumentValidationError, st1)
         | Some args \<Rightarrow>
             (case appointments_upsert args (db_appointments st1) of
                Inl e \<Rightarrow> (Some e, st1)
              | Inr t' \<Rightarrow>
                  (None, st1\<lparr> db_appointments := t',
                              res_appointments := Suc (res_appointments st1) \<rparr>))))"

fun process_entries ::
  "fhir_server \<Rightarrow> fhir_appointment list \<Rightarrow> sync_state \<Rightarrow> error option \<times> sync_state" where
  "process_entries srv [] st = (None, st)"
| "process_entries srv (entry # rest) st =
     (case process_entry srv entry st of
        (Some e, st1) \<Rightarrow> (Some e, st1)
      | (None, st1) \<Rightarrow> process_entries srv rest st1)"

text \<open>
  \<open>syncFhirData\<close>: a failed authentication or a failed fetch of the bundle throws
  before any entry is processed. The result is the error, if any, and the state reached.
\<close>

definition syncFhirData ::
  "fhir_server \<Rightarrow> appointments_table \<Rightarrow> patients_table \<Rightarrow> error option \<times> sync_state" where
  "syncFhirData srv apts pts =
     (let st0 = \<lparr> db_appointments = apts, db_patients = pts,
                  res_appointments = 0, res_patients = 0 \<rparr>
      in case access_token srv of
           None \<Rightarrow> (Some AuthFailed, st0)
         | Some token \<Rightarrow>
             (case appointments_bundle srv of
                None \<Rightarrow> (Some FetchFailed, st0)
              | Some entries \<Rightarrow> process_entries srv entries st0))"













section \<open>Example data\<close>

definition example_args :: appointment_args where
  "example_args =
     \<lparr> fhirId = ''A1'', status = ''booked'', serviceType = Some ''Consulta'',
       start = ''2026-03-02T10:00:00'', end_time = ''2026-03-02T10:30:00'',
       created = None, patientId = Some ''P1'', patientName = Some ''Ana Soto'',
       patientPhone = Some ''912345678'', contactMethod = None, contacted = None,
       serviceRequestId = None, serviceRequestCode = None, serviceRequestCategory = None,
       organizationId = None, organizationName = None \<rparr>"

definition example_table :: appointments_table where
  "example_table = [insert_appointment example_args]"

definition example_called :: appointments_table where
  "example_called =
     [(insert_appointment example_args)
        \<lparr> callHistory := Some [newCall (Some ''CA1'') ''2026-03-01T09:00:00''],
          contacted := Some True \<rparr>]"

definition example_patient :: patient where
  "example_patient =
     \<lparr> p_fhirId = ''P1'', p_identifier = Some ''11111111-1'', p_givenName = ''Ana'',
       p_familyName = ''Soto'', p_phone = Some ''912345678'', p_gender = None,
       p_birthDate = None \<rparr>"

definition example_entry :: fhir_appointment where
  "example_entry =
     \<lparr> ar_id = Some ''A1'', ar_status = Some ''booked'',
       ar_start = Some ''2026-03-02T10:00:00'', ar_end = Some ''2026-03-02T10:30:00'',
       ar_created = None, ar_extension = [], ar_serviceType = [],
       ar_basedOn = [\<lparr> rf_type = None, rf_reference = Some ''ServiceRequest/SR1'' \<rparr>],
       ar_participant =
         [\<lparr> pa_actor = Some \<lparr> rf_type = Some ''Patient'',
                               rf_reference = Some ''Patient/P1'' \<rparr> \<rparr>,
          \<lparr> pa_actor = Some \<lparr> rf_type = Some ''PractitionerRole'',
                               rf_reference = Some ''PractitionerRole/R1'' \<rparr> \<rparr>] \<rparr>"

text \<open>
  A source that authenticates and lists one appointment, and whose every nested fetch
  fails.
\<close>

definition example_server :: fhir_server where
  "example_server =
     \<lparr> access_token = Some ''token'', appointments_bundle = Some [example_entry],
       get_ServiceRequest = (\<lambda>i. None), get_Patient = (\<lambda>i. None),
       get_PractitionerRole = (\<lambda>i. None), get_Organization = (\<lambda>i. None) \<rparr>"




section \<open>Facts about the index lookup\<close>

text \<open>
  The lookup returns a position inside the table, of a document with the key, and a
  patch that keeps the key keeps the result of the lookup.
\<close>

lemma first_index_None_iff: "first_index P xs = None \<longleftrightarrow> (\<forall>x \<in> set xs. \<not> P x)"
  by (induction xs) auto

lemma first_index_Some_less: "first_index P xs = Some i \<Longrightarrow> i < length xs"
  by (induction xs arbitrary: i) (auto split: if_splits)

lemma first_index_Some_holds: "first_index P xs = Some i \<Longrightarrow> P (xs ! i)"
  by (induction xs arbitrary: i) (auto split: if_splits)

lemma first_index_update_same:
  "i < length xs \<Longrightarrow> P y = P (xs ! i) \<Longrightarrow> first_index P (xs[i := y]) = first_index P xs"
proof (induction xs arbitrary: i)
  case Nil
  then show ?case by simp
next
  case (Cons x xs)
  then show ?case by (cases i) auto
qed

lemma first_index_append_new:
  "first_index P xs = None \<Longrightarrow> P y \<Longrightarrow> first_index P (xs @ [y]) = Some (length xs)"
  by (induction xs) (auto split: if_splits)

lemma parse_outcome_literal: "parse_outcome (outcome_literal oc) = Some oc"
  by (cases oc) (simp_all add: parse_outcome_def)

lemma by_fhirId_less: "by_fhirId t k = Some i \<Longrightarrow> i < length t"
  by (simp add: by_fhirId_def first_index_Some_less)

lemma by_fhirId_key: "by_fhirId t k = Some i \<Longrightarrow> fhirId (t ! i) = k"
  using first_index_Some_holds [of "\<lambda>d. fhirId d = k" t i] by (simp add: by_fhirId_def)

lemma by_fhirId_None_iff: "by_fhirId t k = None \<longleftrightarrow> k \<notin> fhirId ` set t"
  by (auto simp: by_fhirId_def first_index_None_iff)

lemma by_fhirId_update:
  "by_fhirId t k = Some i \<Longrightarrow> fhirId d' = k \<Longrightarrow> by_fhirId (t[i := d']) k = Some i"
proof -
  assume i: "by_fhirId t k = Some i" and k: "fhirId d' = k"
  have "i < length t" using i by (rule by_fhirId_less)
  moreover have "fhirId (t ! i) = k" using i by (rule by_fhirId_key)
  ultimately show ?thesis
    using first_index_update_same [of i t "\<lambda>d. fhirId d = k" d'] i k
    by (simp add: by_fhirId_def)
qed

lemma getByFhirId_update:
  "by_fhirId t k = Some i \<Longrightarrow> fhirId d' = k \<Longrightarrow> getByFhirId (t[i := d']) k = Some d'"
  by (simp add: getByFhirId_def by_fhirId_update by_fhirId_less)

lemma getByFhirId_Some:
  "getByFhirId t k = Some d \<Longrightarrow> \<exists>i. by_fhirId t k = Some i \<and> t ! i = d"
  by (auto simp: getByFhirId_def)

lemma patient_by_fhirId_less: "patient_by_fhirId t k = Some i \<Longrightarrow> i < length t"
  by (simp add: patient_by_fhirId_def first_index_Some_less)

lemma patient_by_fhirId_key: "patient_by_fhirId t k = Some i \<Longrightarrow> p_fhirId (t ! i) = k"
  using first_index_Some_holds [of "\<lambda>d. p_fhirId d = k" t i]
  by (simp add: patient_by_fhirId_def)

lemma patient_by_fhirId_None_iff: "patient_by_fhirId t k = None \<longleftrightarrow> k \<notin> p_fhirId ` set t"
  by (auto simp: patient_by_fhirId_def first_index_None_iff)

lemma patient_by_fhirId_update:
  assumes i: "patient_by_fhirId t k = Some i" and k: "p_fhirId d' = k"
  shows "patient_by_fhirId (t[i := d']) k = Some i"
proof -
  have "i < length t" using i by (rule patient_by_fhirId_less)
  moreover have "p_fhirId (t ! i) = k" using i by (rule patient_by_fhirId_key)
  ultimately show ?thesis
    using first_index_update_same [of i t "\<lambda>d. p_fhirId d = k" d'] i k
    by (simp add: patient_by_fhirId_def)
qed

section \<open>Facts about patch, insert and upsert\<close>

text \<open>
  A patch with the same arguments is idempotent, it keeps the key and the call history;
  an upsert keeps the keys of the table distinct and adds at most the key it was given.
\<close>

lemma patch_field_idem: "patch_field n (patch_field n old) = patch_field n old"
  by (simp add: patch_field_def split: option.splits)

lemma patch_appointment_idem:
  "patch_appointment (patch_appointment d a) a = patch_appointment d a"
  by (simp add: patch_appointment_def patch_field_idem)

lemma patch_insert_appointment:
  "patch_appointment (insert_appointment a) a = insert_appointment a"
  by (simp add: patch_appointment_def insert_appointment_def appointment_args.extend_def patch_field_def split: option.splits)

lemma fhirId_patch: "fhirId (patch_appointment d a) = fhirId a"
  by (simp add: patch_appointment_def)

lemma callHistory_patch: "callHistory (patch_appointment d a) = callHistory d"
  by (simp add: patch_appointment_def)

lemma fhirId_insert: "fhirId (insert_appointment a) = fhirId a"
  by (simp add: insert_appointment_def appointment_args.extend_def)

lemma patch_patient_idem: "patch_patient (patch_patient d a) a = patch_patient d a"
  by (simp add: patch_patient_def patch_field_idem)

lemma patch_patient_self: "patch_patient a a = a"
  by (simp add: patch_patient_def patch_field_def split: option.splits)

lemma p_fhirId_patch: "p_fhirId (patch_patient d a) = p_fhirId a"
  by (simp add: patch_patient_def)

lemma distinct_map_filter_le1:
  "distinct (map f xs) \<Longrightarrow> length (filter (\<lambda>d. f d = k) xs) \<le> 1"
proof (induction xs)
  case Nil
  then show ?case by simp
next
  case (Cons x xs)
  show ?case
  proof (cases "f x = k")
    case True
    with Cons.prems have "\<forall>d \<in> set xs. f d \<noteq> k" by (auto simp: image_iff)
    then have "filter (\<lambda>d. f d = k) xs = []" by (simp add: filter_empty_conv)
    with True show ?thesis by simp
  next
    case False
    with Cons show ?thesis by simp
  qed
qed

lemma appointments_upsert_existing:
  "by_fhirId t (fhirId a) = Some i \<Longrightarrow>
     appointments_upsert a t = Inr (t[i := patch_appointment (t ! i) a])"
  by (simp add: appointments_upsert_def)

lemma appointments_upsert_new:
  "by_fhirId t (fhirId a) = None \<Longrightarrow>
     appointments_upsert a t = Inr (t @ [insert_appointment a])"
  by (simp add: appointments_upsert_def)

lemma map_fhirId_patch:
  assumes "by_fhirId t (fhirId a) = Some i"
  shows "map fhirId (t[i := patch_appointment (t ! i) a]) = map fhirId t"
proof -
  have "fhirId (t ! i) = fhirId a" using assms by (rule by_fhirId_key)
  then show ?thesis
    by (simp add: map_update fhirId_patch list_update_same_conv by_fhirId_less [OF assms])
qed

lemma appointments_upsert_total: "\<exists>t'. appointments_upsert a t = Inr t'"
  by (simp add: appointments_upsert_def split: option.splits)

lemma appointments_upsert_distinct:
  assumes "distinct (map fhirId t)" and "appointments_upsert a t = Inr t'"
  shows "distinct (map fhirId t')"
proof (cases "by_fhirId t (fhirId a)")
  case None
  then have "fhirId a \<notin> fhirId ` set t" by (simp add: by_fhirId_None_iff)
  with assms None show ?thesis
    by (auto simp: appointments_upsert_new fhirId_insert)
next
  case (Some i)
  with assms show ?thesis
    by (auto simp: appointments_upsert_existing map_fhirId_patch)
qed

lemma appointments_upserts_distinct:
  "distinct (map fhirId t) \<Longrightarrow>
     \<exists>t'. appointments_upserts as t = Inr t' \<and> distinct (map fhirId t')"
proof (induction as arbitrary: t)
  case Nil
  then show ?case by simp
next
  case (Cons a as)
  obtain t1 where t1: "appointments_upsert a t = Inr t1"
    using appointments_upsert_total by blast
  have "distinct (map fhirId t1)"
    using Cons.prems t1 by (rule appointments_upsert_distinct)
  from Cons.IH [OF this] t1 show ?case by simp
qed

lemma appointments_upsert_idem:
  assumes "appointments_upsert a t = Inr t'"
  shows "appointments_upsert a t' = Inr t'"
proof (cases "by_fhirId t (fhirId a)")
  case None
  with assms have t': "t' = t @ [insert_appointment a]"
    by (simp add: appointments_upsert_new)
  have "by_fhirId t' (fhirId a) = Some (length t)"
    using None first_index_append_new [of "\<lambda>d. fhirId d = fhirId a" t "insert_appointment a"]
    by (simp add: t' by_fhirId_def fhirId_insert)
  then show ?thesis
    by (simp add: appointments_upsert_existing t' patch_insert_appointment)
next
  case (Some i)
  with assms have t': "t' = t[i := patch_appointment (t ! i) a]"
    by (simp add: appointments_upsert_existing)
  have "by_fhirId t' (fhirId a) = Some i"
    unfolding t' using Some by (rule by_fhirId_update) (rule fhirId_patch)
  then show ?thesis
    by (simp add: appointments_upsert_existing t' patch_appointment_idem by_fhirId_less [OF Some])
qed

lemma appointments_upsert_callHistory:
  assumes "by_fhirId t (fhirId a) = Some i"
  shows "map callHistory (t[i := patch_appointment (t ! i) a]) = map callHistory t"
  by (simp add: map_update callHistory_patch list_update_same_conv by_fhirId_less [OF assms])


lemma patients_upsert_existing:
  "patient_by_fhirId t (p_fhirId a) = Some i \<Longrightarrow>
     patients_upsert a t = Inr (t[i := patch_patient (t ! i) a])"
  by (simp add: patients_upsert_def)

lemma patients_upsert_new:
  "patient_by_fhirId t (p_fhirId a) = None \<Longrightarrow> patients_upsert a t = Inr (t @ [a])"
  by (simp add: patients_upsert_def)

lemma patients_upsert_total: "\<exists>t'. patients_upsert a t = Inr t'"
  by (simp add: patients_upsert_def split: option.splits)

lemma map_p_fhirId_patch:
  assumes "patient_by_fhirId t (p_fhirId a) = Some i"
  shows "map p_fhirId (t[i := patch_patient (t ! i) a]) = map p_fhirId t"
proof -
  have "p_fhirId (t ! i) = p_fhirId a" using assms by (rule patient_by_fhirId_key)
  then show ?thesis
    by (simp add: map_update p_fhirId_patch list_update_same_conv
        patient_by_fhirId_less [OF assms])
qed

lemma patients_upsert_distinct:
  assumes "distinct (map p_fhirId t)" and "patients_upsert a t = Inr t'"
  shows "distinct (map p_fhirId t')"
proof (cases "patient_by_fhirId t (p_fhirId a)")
  case None
  then have "p_fhirId a \<notin> p_fhirId ` set t" by (simp add: patient_by_fhirId_None_iff)
  with assms None show ?thesis
    by (auto simp: patients_upsert_new)
next
  case (Some i)
  with assms show ?thesis
    by (auto simp: patients_upsert_existing map_p_fhirId_patch)
qed

lemma patients_upserts_distinct:
  "distinct (map p_fhirId t) \<Longrightarrow>
     \<exists>t'. patients_upserts as t = Inr t' \<and> distinct (map p_fhirId t')"
proof (induction as arbitrary: t)
  case Nil
  then show ?case by simp
next
  case (Cons a as)
  obtain t1 where t1: "patients_upsert a t = Inr t1"
    using patients_upsert_total by blast
  have "distinct (map p_fhirId t1)"
    using Cons.prems t1 by (rule patients_upsert_distinct)
  from Cons.IH [OF this] t1 show ?case by simp
qed

lemma patients_upsert_idem:
  assumes "patients_upsert a t = Inr t'"
  shows "patients_upsert a t' = Inr t'"
proof (cases "patient_by_fhirId t (p_fhirId a)")
  case None
  with assms have t': "t' = t @ [a]"
    by (simp add: patients_upsert_new)
  have "patient_by_fhirId t' (p_fhirId a) = Some (length t)"
    using None first_index_append_new [of "\<lambda>d. p_fhirId d = p_fhirId a" t a]
    by (simp add: t' patient_by_fhirId_def)
  then show ?thesis
    by (simp add: patients_upsert_existing t' patch_patient_self)
next
  case (Some i)
  with assms have t': "t' = t[i := patch_patient (t ! i) a]"
    by (simp add: patients_upsert_existing)
  have "patient_by_fhirId t' (p_fhirId a) = Some i"
    unfolding t' using Some by (rule patient_by_fhirId_update) (rule p_fhirId_patch)
  then show ?thesis
    by (simp add: patients_upsert_existing t' patch_patient_idem
        patient_by_fhirId_less [OF Some])
qed

section \<open>Facts about the example data\<close>

lemma example_table_lookup:
  "getByFhirId example_table ''A1'' = Some (insert_appointment example_args)"
  by (simp add: getByFhirId_def by_fhirId_def example_table_def insert_appointment_def
      appointment_args.extend_def example_args_def)

lemma example_called_lookup:
  "getByFhirId example_called ''A1'' = Some (example_called ! 0)"
  by (simp add: getByFhirId_def by_fhirId_def example_called_def insert_appointment_def
      appointment_args.extend_def example_args_def)

lemma example_called_history:
  "callHistory (example_called ! 0) = Some [newCall (Some ''CA1'') ''2026-03-01T09:00:00'']"
  by (simp add: example_called_def)

lemma example_has_phone: "has_phone (insert_appointment example_args)"
  by (simp add: has_phone_def insert_appointment_def appointment_args.extend_def example_args_def)

section \<open>Facts about the phone format\<close>

lemma is_digit_consts:
  "\<not> is_digit CHR ''+''" "is_digit CHR ''5''" "is_digit CHR ''6''" "is_digit CHR ''9''"
  by (simp_all add: is_digit_def)

lemma formatChileanPhone_digits:
  "filter is_digit (formatChileanPhone phone) = tl (formatChileanPhone phone)"
  by (simp add: formatChileanPhone_def Let_def is_digit_consts)

lemma startsWith_56: "startsWith s ''56'' \<longleftrightarrow> take 2 s = ''56''"
  by (simp add: startsWith_def numeral_2_eq_2)

lemma startsWith_9: "startsWith s ''9'' \<longleftrightarrow> take 1 s = ''9''"
  by (simp add: startsWith_def)

lemma formatChileanPhone_rules:
  "formatChileanPhone phone =
     (if take 2 (filter is_digit phone) = ''56'' \<and> length (filter is_digit phone) = 11
      then ''+'' @ filter is_digit phone
      else if length (filter is_digit phone) = 9 \<and> take 1 (filter is_digit phone) = ''9''
      then ''+56'' @ filter is_digit phone
      else if length (filter is_digit phone) = 8 then ''+569'' @ filter is_digit phone
      else ''+56'' @ filter is_digit phone)"
  unfolding formatChileanPhone_def Let_def startsWith_56 startsWith_9 ..

section \<open>Facts about the poller\<close>

text \<open>
  One unfolding of \<open>poll\<close> per branch of its body, then the shape of its result by
  computation induction.
\<close>

lemma poll_stops_on_error:
  "env attempts = Fetch_error \<Longrightarrow> poll env k callIndex attempts t = ([Query], t)"
  by (simp add: poll.simps)

lemma poll_commits:
  "env attempts = Status oc \<Longrightarrow> non_pending oc = Some s \<Longrightarrow>
     updateCallOutcome k callIndex s t = Inr t' \<Longrightarrow>
     poll env k callIndex attempts t = ([Query, Commit s], t')"
  by (simp add: poll.simps)

lemma poll_rejected:
  "env attempts = Status oc \<Longrightarrow> non_pending oc = Some s \<Longrightarrow>
     updateCallOutcome k callIndex s t = Inl e \<Longrightarrow>
     poll env k callIndex attempts t = ([Query], t)"
  by (simp add: poll.simps)

lemma poll_last_attempt:
  "env attempts = Status oc \<Longrightarrow> non_pending oc = None \<Longrightarrow> \<not> Suc attempts < maxAttempts \<Longrightarrow>
     poll env k callIndex attempts t = ([Query], t)"
  by (simp add: poll.simps)

lemma poll_again:
  "env attempts = Status oc \<Longrightarrow> non_pending oc = None \<Longrightarrow> Suc attempts < maxAttempts \<Longrightarrow>
     poll env k callIndex attempts t =
       (Query # Wait 2000 # fst (poll env k callIndex (Suc attempts) t),
        snd (poll env k callIndex (Suc attempts) t))"
  by (subst poll.simps) (simp add: case_prod_beta)

lemma queries_schedule: "queries (schedule n) = Suc n"
  by (induction n) (simp_all add: queries_def)

lemma commits_schedule: "commits (schedule n) = 0"
  by (induction n) (simp_all add: commits_def)

lemma queries_commit: "queries (ev @ [Commit s]) = queries ev"
  by (simp add: queries_def)

lemma commits_commit: "commits (ev @ [Commit s]) = Suc (commits ev)"
  by (simp add: commits_def)

lemma poll_shape:
  "\<exists>n. attempts + n < max maxAttempts (Suc attempts)
       \<and> (\<forall>i < n. observed_pending (env (attempts + i)))
       \<and> poll_result env k callIndex attempts t n (poll env k callIndex attempts t)"
proof (induction env k callIndex attempts t rule: poll.induct)
  case (1 env k callIndex attempts t)
  show ?case
  proof (cases "env attempts")
    case Fetch_error
    then have "poll_result env k callIndex attempts t 0 (poll env k callIndex attempts t)"
      by (simp add: poll_stops_on_error poll_result_def)
    then show ?thesis by (intro exI [of _ 0]) simp
  next
    case (Status oc)
    show ?thesis
    proof (cases "non_pending oc")
      case (Some s)
      have "poll_result env k callIndex attempts t 0 (poll env k callIndex attempts t)"
      proof (cases "updateCallOutcome k callIndex s t")
        case (Inl e)
        with Status Some show ?thesis
          by (simp add: poll_rejected [where env = env and attempts = attempts, OF Status Some Inl]
              poll_result_def)
      next
        case (Inr t')
        with Status Some show ?thesis
          by (simp add: poll_commits [where env = env and attempts = attempts, OF Status Some Inr]
              poll_result_def)
      qed
      then show ?thesis by (intro exI [of _ 0]) simp
    next
      case None
      show ?thesis
      proof (cases "Suc attempts < maxAttempts")
        case False
        have "poll_result env k callIndex attempts t 0 (poll env k callIndex attempts t)"
          using Status None False
          by (simp add: poll_last_attempt [where env = env and attempts = attempts,
                OF Status None False] poll_result_def)
        then show ?thesis by (intro exI [of _ 0]) simp
      next
        case True
        from "1.IH" [OF Status None True]
        obtain n where n: "Suc attempts + n < max maxAttempts (Suc (Suc attempts))"
          and p: "\<forall>i < n. observed_pending (env (Suc attempts + i))"
          and r: "poll_result env k callIndex (Suc attempts) t n
                    (poll env k callIndex (Suc attempts) t)"
          by blast
        have b: "attempts + Suc n < max maxAttempts (Suc attempts)"
          using n True by simp
        have here: "observed_pending (env attempts)"
          using Status None by (simp add: observed_pending_def)
        have p': "\<forall>i < Suc n. observed_pending (env (attempts + i))"
        proof (intro allI impI)
          fix i assume "i < Suc n"
          show "observed_pending (env (attempts + i))"
          proof (cases i)
            case 0
            with here show ?thesis by simp
          next
            case (Suc j)
            with \<open>i < Suc n\<close> p show ?thesis by simp
          qed
        qed
        have r': "poll_result env k callIndex attempts t (Suc n)
                    (poll env k callIndex attempts t)"
          using r
          unfolding poll_again [where env = env and attempts = attempts, OF Status None True]
            poll_result_def
          by (cases "poll env k callIndex (Suc attempts) t")
             (auto split: status_reply.splits option.splits sum.splits)
        from b p' r' show ?thesis by blast
      qed
    qed
  qed
qed

lemma poll_all_pending:
  "\<forall>i < maxAttempts. observed_pending (env i) \<Longrightarrow> attempts < maxAttempts \<Longrightarrow>
     poll env k callIndex attempts t = (schedule (maxAttempts - 1 - attempts), t)"
proof (induction env k callIndex attempts t rule: poll.induct)
  case (1 env k callIndex attempts t)
  from "1.prems" have "observed_pending (env attempts)" by simp
  then obtain oc where st: "env attempts = Status oc" and np: "non_pending oc = None"
    by (auto simp: observed_pending_def split: status_reply.splits)
  show ?case
  proof (cases "Suc attempts < maxAttempts")
    case False
    with "1.prems" have "maxAttempts - 1 - attempts = 0" by simp
    with poll_last_attempt [where env = env and attempts = attempts, OF st np False] show ?thesis by simp
  next
    case True
    have "poll env k callIndex (Suc attempts) t = (schedule (maxAttempts - 1 - Suc attempts), t)"
      using "1.IH" [OF st np True "1.prems"(1) True] .
    moreover have "maxAttempts - 1 - attempts = Suc (maxAttempts - 1 - Suc attempts)"
      using True by simp
    ultimately show ?thesis
      by (simp add: poll_again [where env = env and attempts = attempts, OF st np True])
  qed
qed

lemma poll_result_counts:
  "poll_result env k callIndex attempts t n r \<Longrightarrow>
     queries (fst r) = Suc n \<and> commits (fst r) \<le> 1"
  by (auto simp: poll_result_def queries_schedule commits_schedule queries_commit commits_commit
      split: status_reply.splits option.splits sum.splits)

section \<open>Facts about call initiation\<close>

lemma handleCall_placed:
  assumes "getByFhirId t k = Some d" and "has_phone d"
  shows "\<exists>d'. getByFhirId (fst (handleCall d (Call_placed sid) now t)) k = Some d'
           \<and> has_phone d'
           \<and> current_history d' = current_history d @ [newCall sid now]"
proof -
  from assms(1) obtain i where i: "by_fhirId t k = Some i" and d: "t ! i = d"
    using getByFhirId_Some by blast
  have k: "fhirId d = k" using by_fhirId_key [OF i] d by simp
  let ?d' = "d\<lparr> callHistory := Some (current_history d @ [newCall sid now]), contacted := Some True \<rparr>"
  have r: "recordCall k sid now t = Inr (t[i := ?d'])"
    using i d by (simp add: recordCall_def)
  have g: "getByFhirId (t[i := ?d']) k = Some ?d'"
    using i by (rule getByFhirId_update) (simp add: k)
  have "fst (handleCall d (Call_placed sid) now t) = t[i := ?d']"
    using assms(2) r k by (auto simp: handleCall_def has_phone_def)
  with g assms(2) show ?thesis
    by (simp add: has_phone_def current_history_def)
qed

lemma handleCall_rejected: "fst (handleCall d Call_rejected now t) = t"
  by (simp add: handleCall_def)

lemma handleCalls_history:
  "getByFhirId t k = Some d \<Longrightarrow> has_phone d \<Longrightarrow>
     history_of (handleCalls k cs t) k
       = current_history d @ map (\<lambda>(sid, now). newCall sid now) (placed cs)"
proof (induction cs arbitrary: t d rule: placed.induct)
  case 1
  then show ?case by (simp add: history_of_def)
next
  case (2 now cs)
  then show ?case by (simp add: handleCall_rejected)
next
  case (3 sid now cs)
  from handleCall_placed [OF "3.prems", of sid now]
  obtain d' where g: "getByFhirId (fst (handleCall d (Call_placed sid) now t)) k = Some d'"
    and p: "has_phone d'"
    and h: "current_history d' = current_history d @ [newCall sid now]"
    by blast
  from "3.IH" [OF g p] h "3.prems"(1) show ?case by simp
qed

lemma timestamp_newCall: "timestamp (newCall sid now) = now"
  by (simp add: newCall_def)

section \<open>Facts about the resolver\<close>

text \<open>
  The participant loop never writes the appointments table, so an entry with the
  required fields is always upserted. A relation between the variables of two runs that
  every step of the two inner loops preserves holds between the variables they resolve;
  this gives, for each kind of fetch, the fields it can change and the fields that stay
  unset when it always fails.
\<close>

lemma process_patient_appointments:
  "db_appointments (snd (process_patient srv ref (v, st))) = db_appointments st
   \<and> res_appointments (snd (process_patient srv ref (v, st))) = res_appointments st"
  by (simp add: process_patient_def Let_def split: option.splits sum.splits)

lemma process_participant_appointments:
  "db_appointments (snd (process_participant srv p vs)) = db_appointments (snd vs)
   \<and> res_appointments (snd (process_participant srv p vs)) = res_appointments (snd vs)"
proof (cases vs)
  case (Pair v st)
  then show ?thesis
    using process_patient_appointments [of srv _ v st]
    by (simp add: process_participant_def Let_def)
qed

lemma process_participants_appointments:
  "db_appointments (snd (process_participants srv ps vs)) = db_appointments (snd vs)
   \<and> res_appointments (snd (process_participants srv ps vs)) = res_appointments (snd vs)"
  by (induction ps arbitrary: vs) (simp_all add: process_participant_appointments)

lemma resolve_entry_appointments:
  "db_appointments (snd (resolve_entry srv a st)) = db_appointments st
   \<and> res_appointments (snd (resolve_entry srv a st)) = res_appointments st"
  using process_participants_appointments [of srv "ar_participant a"]
  by (simp add: resolve_entry_def Let_def)




































lemma appointments_upsert_history_prefix:
  assumes "appointments_upsert a t = Inr t'"
  shows "length t \<le> length t' \<and> take (length t) (map callHistory t') = map callHistory t"
proof (cases "by_fhirId t (fhirId a)")
  case None
  with assms show ?thesis by (auto simp: appointments_upsert_new)
next
  case (Some i)
  with assms have "t' = t[i := patch_appointment (t ! i) a]"
    by (simp add: appointments_upsert_existing)
  then show ?thesis
    using appointments_upsert_callHistory [OF Some] by simp
qed

lemma process_entry_history_prefix:
  "length (db_appointments st) \<le> length (db_appointments (snd (process_entry srv a st)))
   \<and> take (length (db_appointments st))
         (map callHistory (db_appointments (snd (process_entry srv a st))))
       = map callHistory (db_appointments st)"
proof -
  obtain v st1 where r: "resolve_entry srv a st = (v, st1)" by (cases "resolve_entry srv a st")
  have a1: "db_appointments st1 = db_appointments st"
    using resolve_entry_appointments [of srv a st] r by simp
  show ?thesis
  proof (cases "upsert_args a v")
    case None
    then show ?thesis by (simp add: process_entry_def r a1)
  next
    case (Some args)
    obtain t' where t': "appointments_upsert args (db_appointments st1) = Inr t'"
      using appointments_upsert_total by blast
    have t'': "appointments_upsert args (db_appointments st) = Inr t'"
      using t' a1 by simp
    from appointments_upsert_history_prefix [OF t''] show ?thesis
      by (simp add: process_entry_def r Some t'' a1)
  qed
qed

lemma process_entries_history_prefix:
  "length (db_appointments st) \<le> length (db_appointments (snd (process_entries srv entries st)))
   \<and> take (length (db_appointments st))
         (map callHistory (db_appointments (snd (process_entries srv entries st))))
       = map callHistory (db_appointments st)"
proof (induction entries arbitrary: st)
  case Nil
  then show ?case by simp
next
  case (Cons a entries)
  obtain e st1 where 1: "process_entry srv a st = (e, st1)" by (cases "process_entry srv a st")
  have l1: "length (db_appointments st) \<le> length (db_appointments st1)"
    and p1: "take (length (db_appointments st)) (map callHistory (db_appointments st1))
               = map callHistory (db_appointments st)"
    using process_entry_history_prefix [of st srv a] 1 by simp_all
  show ?case
  proof (cases e)
    case (Some err)
    with 1 l1 p1 show ?thesis by simp
  next
    case None
    let ?t2 = "db_appointments (snd (process_entries srv entries st1))"
    have l2: "length (db_appointments st1) \<le> length ?t2"
      and p2: "take (length (db_appointments st1)) (map callHistory ?t2)
                 = map callHistory (db_appointments st1)"
      using Cons.IH [of st1] by simp_all
    have "take (length (db_appointments st)) (map callHistory ?t2)
            = take (length (db_appointments st))
                (take (length (db_appointments st1)) (map callHistory ?t2))"
      using l1 by (simp add: min_def)
    also have "\<dots> = map callHistory (db_appointments st)"
      unfolding p2 by (rule p1)
    finally have "take (length (db_appointments st)) (map callHistory ?t2)
            = map callHistory (db_appointments st)" .
    with l1 l2 1 None show ?thesis by simp
  qed
qed

lemma syncFhirData_history_prefix:
  "take (length t) (map callHistory (db_appointments (snd (syncFhirData srv t pts))))
     = map callHistory t"
proof -
  let ?st0 = "\<lparr> db_appointments = t, db_patients = pts,
                res_appointments = 0, res_patients = 0 \<rparr>"
  have "take (length t) (map callHistory (db_appointments (snd (process_entries srv entries ?st0))))
          = map callHistory t" for entries
    using process_entries_history_prefix [of ?st0 srv entries] by simp
  then show ?thesis
    by (simp add: syncFhirData_def Let_def split: option.splits)
qed


























section \<open>Recording a call\<close>

text \<open>
  Claim C1. When the table has an appointment with the external id, \<open>recordCall\<close> returns
  without an error; the appointment is the old one with \<open>contacted\<close> set to true and
  with a call history that is the old history followed by exactly one new record
  \<open>{timestamp, callSid, outcome = pending}\<close>. The history is longer by one, its last
  element is the new record, and every record that was there before is at its old
  position, unchanged.
\<close>

theorem recordCall_appends:
  assumes "getByFhirId t k = Some d"
  shows "\<exists>t' d'. recordCall k sid ts t = Inr t' \<and> getByFhirId t' k = Some d'
           \<and> d' = d\<lparr> callHistory :=
                    Some (current_history d
                          @ [\<lparr> timestamp = ts, callSid = sid, outcome = Some Pending \<rparr>]),
                    contacted := Some True \<rparr>
           \<and> contacted d' = Some True
           \<and> length (current_history d') = Suc (length (current_history d))
           \<and> last (current_history d') = \<lparr> timestamp = ts, callSid = sid, outcome = Some Pending \<rparr>
           \<and> take (length (current_history d)) (current_history d') = current_history d
           \<and> (\<forall>j < length (current_history d). current_history d' ! j = current_history d ! j)"
proof -
  from assms obtain i where i: "by_fhirId t k = Some i" and d: "t ! i = d"
    using getByFhirId_Some by blast
  let ?d' = "d\<lparr> callHistory := Some (current_history d @ [newCall sid ts]),
                 contacted := Some True \<rparr>"
  have key: "fhirId ?d' = k" using by_fhirId_key [OF i] d by simp
  have r: "recordCall k sid ts t = Inr (t[i := ?d'])"
    using i d by (simp add: recordCall_def)
  have g: "getByFhirId (t[i := ?d']) k = Some ?d'"
    by (rule getByFhirId_update [OF i key])
  have h: "current_history ?d' = current_history d @ [newCall sid ts]"
    by (simp add: current_history_def)
  show ?thesis
    using r g h by (simp add: newCall_def nth_append)
qed

theorem recordCall_appends_witness:
  "getByFhirId example_table ''A1'' = Some (insert_appointment example_args)
   \<and> (\<exists>t' d'. recordCall ''A1'' (Some ''CA1'') ''2026-03-01T09:00:00'' example_table = Inr t'
         \<and> getByFhirId t' ''A1'' = Some d'
         \<and> contacted d' = Some True
         \<and> current_history d' = [newCall (Some ''CA1'') ''2026-03-01T09:00:00''])"
proof -
  have h: "getByFhirId example_table ''A1'' = Some (insert_appointment example_args)"
    by (rule example_table_lookup)
  have e: "current_history (insert_appointment example_args) = []"
    by (simp add: current_history_def insert_appointment_def appointment_args.extend_def)
  from recordCall_appends [OF h, of "Some ''CA1''" "''2026-03-01T09:00:00''"]
  obtain t' d' where
    "recordCall ''A1'' (Some ''CA1'') ''2026-03-01T09:00:00'' example_table = Inr t'"
    and "getByFhirId t' ''A1'' = Some d'" and "contacted d' = Some True"
    and "d' = (insert_appointment example_args)\<lparr> callHistory :=
              Some (current_history (insert_appointment example_args)
                    @ [\<lparr> timestamp = ''2026-03-01T09:00:00'', callSid = Some ''CA1'',
                         outcome = Some Pending \<rparr>]),
              contacted := Some True \<rparr>"
    by blast
  then show ?thesis
    using h e by (auto simp: current_history_def newCall_def)
qed

section \<open>Upsert by external id\<close>

text \<open>
  Claim C2. From a table with at most one document per external id (the empty table is
  one), every sequence of upserts succeeds and ends in a table with at most one document
  per external id, for appointments and for patients. An upsert whose id exists patches
  the document at its position and the table keeps its length. An upsert repeated with
  the same arguments returns the table unchanged.
\<close>

theorem upsert_one_record_per_id:
  assumes "distinct (map fhirId t)" and "distinct (map p_fhirId pt)"
  shows "(\<exists>t'. appointments_upserts as t = Inr t'
              \<and> (\<forall>k. length (filter (\<lambda>d. fhirId d = k) t') \<le> 1))
       \<and> (\<exists>pt'. patients_upserts ps pt = Inr pt'
              \<and> (\<forall>k. length (filter (\<lambda>d. p_fhirId d = k) pt') \<le> 1))
       \<and> (\<forall>i. by_fhirId t (fhirId a) = Some i \<longrightarrow>
              appointments_upsert a t = Inr (t[i := patch_appointment (t ! i) a])
              \<and> length (t[i := patch_appointment (t ! i) a]) = length t)
       \<and> (\<forall>i. patient_by_fhirId pt (p_fhirId p) = Some i \<longrightarrow>
              patients_upsert p pt = Inr (pt[i := patch_patient (pt ! i) p])
              \<and> length (pt[i := patch_patient (pt ! i) p]) = length pt)
       \<and> (\<exists>t'. appointments_upsert a t = Inr t' \<and> appointments_upsert a t' = Inr t')
       \<and> (\<exists>pt'. patients_upsert p pt = Inr pt' \<and> patients_upsert p pt' = Inr pt')"
proof (intro conjI)
  show "\<exists>t'. appointments_upserts as t = Inr t'
              \<and> (\<forall>k. length (filter (\<lambda>d. fhirId d = k) t') \<le> 1)"
  proof -
    obtain t' where r: "appointments_upserts as t = Inr t'" and dt: "distinct (map fhirId t')"
      using appointments_upserts_distinct [OF assms(1), of as] by blast
    have "\<forall>k. length (filter (\<lambda>d. fhirId d = k) t') \<le> 1"
      using distinct_map_filter_le1 [OF dt] by blast
    with r show ?thesis by blast
  qed
  show "\<exists>pt'. patients_upserts ps pt = Inr pt'
              \<and> (\<forall>k. length (filter (\<lambda>d. p_fhirId d = k) pt') \<le> 1)"
  proof -
    obtain pt' where r: "patients_upserts ps pt = Inr pt'"
      and dt: "distinct (map p_fhirId pt')"
      using patients_upserts_distinct [OF assms(2), of ps] by blast
    have "\<forall>k. length (filter (\<lambda>d. p_fhirId d = k) pt') \<le> 1"
      using distinct_map_filter_le1 [OF dt] by blast
    with r show ?thesis by blast
  qed
  show "\<forall>i. by_fhirId t (fhirId a) = Some i \<longrightarrow>
              appointments_upsert a t = Inr (t[i := patch_appointment (t ! i) a])
              \<and> length (t[i := patch_appointment (t ! i) a]) = length t"
    by (simp add: appointments_upsert_existing)
  show "\<forall>i. patient_by_fhirId pt (p_fhirId p) = Some i \<longrightarrow>
              patients_upsert p pt = Inr (pt[i := patch_patient (pt ! i) p])
              \<and> length (pt[i := patch_patient (pt ! i) p]) = length pt"
    by (simp add: patients_upsert_existing)
  show "\<exists>t'. appointments_upsert a t = Inr t' \<and> appointments_upsert a t' = Inr t'"
    using appointments_upsert_total [of a t] appointments_upsert_idem by blast
  show "\<exists>pt'. patients_upsert p pt = Inr pt' \<and> patients_upsert p pt' = Inr pt'"
    using patients_upsert_total [of p pt] patients_upsert_idem by blast
qed

theorem upsert_one_record_per_id_witness:
  "distinct (map fhirId example_table) \<and> distinct (map p_fhirId [example_patient])
   \<and> (\<exists>t'. appointments_upserts [example_args, example_args\<lparr> fhirId := ''A2'' \<rparr>, example_args]
               example_table = Inr t'
          \<and> (\<forall>k. length (filter (\<lambda>d. fhirId d = k) t') \<le> 1))
   \<and> (\<exists>pt'. patients_upserts [example_patient, example_patient] [example_patient] = Inr pt'
          \<and> (\<forall>k. length (filter (\<lambda>d. p_fhirId d = k) pt') \<le> 1))
   \<and> (\<exists>t'. appointments_upsert example_args example_table = Inr t'
          \<and> appointments_upsert example_args t' = Inr t')"
proof -
  have h1: "distinct (map fhirId example_table)" by (simp add: example_table_def)
  have h2: "distinct (map p_fhirId [example_patient])" by simp
  from upsert_one_record_per_id [OF h1 h2,
      of "[example_args, example_args\<lparr> fhirId := ''A2'' \<rparr>, example_args]"
         "[example_patient, example_patient]" example_args example_patient]
    h1 h2
  show ?thesis by blast
qed

section \<open>Correcting an outcome by index\<close>

text \<open>
  Claim C3. For an appointment of the table and an index that is negative or not below
  the length of its call history (an absent history has length 0),
  \<open>updateCallOutcome\<close> with any of the four outcomes returns without an error and the
  table is the one it was given.
\<close>

theorem out_of_range_index_ignored:
  assumes "getByFhirId t k = Some d"
    and "callIndex < 0 \<or> int (length (current_history d)) \<le> callIndex"
  shows "updateCallOutcome k callIndex (outcome_literal oc) t = Inr t"
proof -
  from assms(1) obtain i where i: "by_fhirId t k = Some i" and d: "t ! i = d"
    using getByFhirId_Some by blast
  show ?thesis
    using i d assms(2)
    by (auto simp: updateCallOutcome_def updateCallOutcome_handler_def parse_outcome_literal
        current_history_def split: option.splits)
qed

theorem out_of_range_index_ignored_witness:
  "getByFhirId example_called ''A1'' = Some (example_called ! 0)
   \<and> ((1::int) < 0 \<or> int (length (current_history (example_called ! 0))) \<le> 1)
   \<and> updateCallOutcome ''A1'' 1 (outcome_literal Answered) example_called = Inr example_called"
proof -
  have h: "getByFhirId example_called ''A1'' = Some (example_called ! 0)"
    by (rule example_called_lookup)
  have r: "(1::int) < 0 \<or> int (length (current_history (example_called ! 0))) \<le> 1"
    by (simp add: current_history_def example_called_history)
  from h r out_of_range_index_ignored [OF h r, of Answered] show ?thesis by blast
qed

text \<open>
  Claim C4. For an appointment with a call history \<open>h\<close> and an index within it,
  \<open>updateCallOutcome\<close> returns without an error; the appointment differs from the old
  one in its call history only; the new history has the length of \<open>h\<close>, the record at
  the index is the old record with the new outcome (same timestamp, same call
  identifier), every record at another index is unchanged, and the timestamps and call
  identifiers are in the order they had.
\<close>

theorem in_range_index_overwrites_outcome_only:
  assumes "getByFhirId t k = Some d"
    and "callHistory d = Some h"
    and "0 \<le> callIndex" and "callIndex < int (length h)"
  shows "\<exists>t' d' h'. updateCallOutcome k callIndex (outcome_literal oc) t = Inr t'
           \<and> getByFhirId t' k = Some d'
           \<and> d' = d\<lparr> callHistory := Some h' \<rparr>
           \<and> length h' = length h
           \<and> (\<forall>j < length h. j \<noteq> nat callIndex \<longrightarrow> h' ! j = h ! j)
           \<and> h' ! nat callIndex = (h ! nat callIndex)\<lparr> outcome := Some oc \<rparr>
           \<and> timestamp (h' ! nat callIndex) = timestamp (h ! nat callIndex)
           \<and> callSid (h' ! nat callIndex) = callSid (h ! nat callIndex)
           \<and> map timestamp h' = map timestamp h
           \<and> map callSid h' = map callSid h"
proof -
  from assms(1) obtain i where i: "by_fhirId t k = Some i" and d: "t ! i = d"
    using getByFhirId_Some by blast
  let ?n = "nat callIndex"
  let ?h' = "h[?n := (h ! ?n)\<lparr> outcome := Some oc \<rparr>]"
  let ?d' = "d\<lparr> callHistory := Some ?h' \<rparr>"
  have n: "?n < length h" using assms(3,4) by linarith
  have key: "fhirId ?d' = k" using by_fhirId_key [OF i] d by simp
  have r: "updateCallOutcome k callIndex (outcome_literal oc) t = Inr (t[i := ?d'])"
    using i d assms(2,3,4)
    by (simp add: updateCallOutcome_def updateCallOutcome_handler_def parse_outcome_literal)
  have g: "getByFhirId (t[i := ?d']) k = Some ?d'"
    by (rule getByFhirId_update [OF i key])
  have ts: "map timestamp ?h' = map timestamp h"
    using n by (simp add: map_update list_update_same_conv)
  have cs: "map callSid ?h' = map callSid h"
    using n by (simp add: map_update list_update_same_conv)
  show ?thesis
    using r g n ts cs by (intro exI [of _ "t[i := ?d']"] exI [of _ ?d'] exI [of _ ?h']) simp
qed

theorem in_range_index_overwrites_outcome_only_witness:
  "getByFhirId example_called ''A1'' = Some (example_called ! 0)
   \<and> callHistory (example_called ! 0) = Some [newCall (Some ''CA1'') ''2026-03-01T09:00:00'']
   \<and> (\<exists>t' d'. updateCallOutcome ''A1'' 0 (outcome_literal Answered) example_called = Inr t'
         \<and> getByFhirId t' ''A1'' = Some d'
         \<and> callHistory d' = Some [\<lparr> timestamp = ''2026-03-01T09:00:00'', callSid = Some ''CA1'',
                                    outcome = Some Answered \<rparr>])"
proof -
  have h: "getByFhirId example_called ''A1'' = Some (example_called ! 0)"
    by (rule example_called_lookup)
  have c: "callHistory (example_called ! 0)
             = Some [newCall (Some ''CA1'') ''2026-03-01T09:00:00'']"
    by (rule example_called_history)
  have "\<exists>t' d' h'. updateCallOutcome ''A1'' 0 (outcome_literal Answered) example_called = Inr t'
           \<and> getByFhirId t' ''A1'' = Some d'
           \<and> d' = (example_called ! 0)\<lparr> callHistory := Some h' \<rparr>
           \<and> h' ! nat 0 = ([newCall (Some ''CA1'') ''2026-03-01T09:00:00''] ! nat 0)
                              \<lparr> outcome := Some Answered \<rparr>
           \<and> length h' = length [newCall (Some ''CA1'') ''2026-03-01T09:00:00'']"
    using in_range_index_overwrites_outcome_only [OF h c, of 0 Answered] by auto
  then obtain t' d' h' where
    1: "updateCallOutcome ''A1'' 0 (outcome_literal Answered) example_called = Inr t'"
    and 2: "getByFhirId t' ''A1'' = Some d'"
    and 3: "d' = (example_called ! 0)\<lparr> callHistory := Some h' \<rparr>"
    and 4: "h' ! 0 = (newCall (Some ''CA1'') ''2026-03-01T09:00:00'')\<lparr> outcome := Some Answered \<rparr>"
    and 5: "length h' = 1"
    by auto
  from 4 5 have "h' = [\<lparr> timestamp = ''2026-03-01T09:00:00'', callSid = Some ''CA1'',
                          outcome = Some Answered \<rparr>]"
    by (cases h') (auto simp: newCall_def)
  with 1 2 3 h c show ?thesis by auto
qed

section \<open>Polling the call status\<close>

text \<open>
  Claim C5. Whatever the status service answers, the poller stops at some query number
  \<open>n < 30\<close> (counted from 0), so it makes \<open>n + 1 \<le> 30\<close> queries, with one wait of
  2000 ms between two successive queries; every reply before the last query was pending;
  its result is the one \<open>poll_result\<close> reads off the last reply, so that a commit, if
  there is one, is the last event and follows the first reply with an outcome other than
  pending; there is at most one commit; and when all 30 replies are pending the trace is
  the 30 queries alone and the table is unchanged.
\<close>

theorem pollCallStatus_bounded:
  "(\<exists>n < 30. (\<forall>i < n. observed_pending (env i))
        \<and> poll_result env k callIndex 0 t n (pollCallStatus env k callIndex t))
   \<and> maxAttempts = 30
   \<and> queries (fst (pollCallStatus env k callIndex t)) \<le> 30
   \<and> commits (fst (pollCallStatus env k callIndex t)) \<le> 1
   \<and> ((\<forall>i < 30. observed_pending (env i)) \<longrightarrow>
        pollCallStatus env k callIndex t = (schedule 29, t)
        \<and> queries (schedule 29) = 30 \<and> commits (schedule 29) = 0)"
proof -
  from poll_shape [of 0 env k callIndex t]
  obtain n where n: "n < 30" and p: "\<forall>i < n. observed_pending (env i)"
    and r: "poll_result env k callIndex 0 t n (pollCallStatus env k callIndex t)"
    by (auto simp: maxAttempts_def pollCallStatus_def)
  from poll_result_counts [OF r] n
  have c: "queries (fst (pollCallStatus env k callIndex t)) \<le> 30"
    "commits (fst (pollCallStatus env k callIndex t)) \<le> 1"
    by simp_all
  have a: "(\<forall>i < 30. observed_pending (env i)) \<longrightarrow>
        pollCallStatus env k callIndex t = (schedule 29, t)"
    using poll_all_pending [of env 0 k callIndex t]
    by (simp add: maxAttempts_def pollCallStatus_def)
  show ?thesis
    using n p r c a by (auto simp: maxAttempts_def queries_schedule commits_schedule)
qed

theorem pollCallStatus_bounded_witness:
  "observed_pending (Status (Some ''pending''))
   \<and> pollCallStatus (\<lambda>i. Status (Some ''pending'')) ''A1'' 0 example_called
       = (schedule 29, example_called)
   \<and> queries (schedule 29) = 30 \<and> commits (schedule 29) = 0"
proof -
  have h: "observed_pending (Status (Some ''pending''))"
    by (simp add: observed_pending_def non_pending_def)
  then have "\<forall>i < 30. observed_pending ((\<lambda>i. Status (Some ''pending'')) i)"
    by simp
  with pollCallStatus_bounded [of "\<lambda>i. Status (Some ''pending'')" "''A1''" 0 example_called] h
  show ?thesis by blast
qed

section \<open>Nested fetches of the resolver\<close>




section \<open>Phone normalization\<close>

text \<open>
  Claim C7. \<open>formatChileanPhone\<close> maps \<open>912345678\<close>, the 8-digit \<open>12345678\<close> and
  \<open>56912345678\<close> to \<open>+56912345678\<close>, with or without spaces and punctuation. For every
  input the result is the result on its digits alone, and it is a plus sign followed by
  digits. With \<open>digits\<close> the input without every character that is not a digit: 11 digits
  that start with 56 give \<open>+\<close> and the digits; 9 digits that start with 9 give \<open>+56\<close>
  and the digits; 8 digits give \<open>+569\<close> and the digits; every other input gives \<open>+56\<close>
  and the digits.
\<close>

theorem formatChileanPhone_normalizes:
  "formatChileanPhone ''912345678'' = ''+56912345678''
   \<and> formatChileanPhone ''12345678'' = ''+56912345678''
   \<and> formatChileanPhone ''56912345678'' = ''+56912345678''
   \<and> formatChileanPhone ''9 1234-5678'' = ''+56912345678''
   \<and> formatChileanPhone ''+56 (9) 1234.5678'' = ''+56912345678''
   \<and> formatChileanPhone phone = formatChileanPhone (filter is_digit phone)
   \<and> filter is_digit (formatChileanPhone phone) = tl (formatChileanPhone phone)
   \<and> (length (filter is_digit phone) = 11 \<and> take 2 (filter is_digit phone) = ''56'' \<longrightarrow>
        formatChileanPhone phone = ''+'' @ filter is_digit phone)
   \<and> (length (filter is_digit phone) = 9 \<and> take 1 (filter is_digit phone) = ''9'' \<longrightarrow>
        formatChileanPhone phone = ''+56'' @ filter is_digit phone)
   \<and> (length (filter is_digit phone) = 8 \<longrightarrow>
        formatChileanPhone phone = ''+569'' @ filter is_digit phone)
   \<and> (\<not> (length (filter is_digit phone) = 11 \<and> take 2 (filter is_digit phone) = ''56'')
        \<and> \<not> (length (filter is_digit phone) = 9 \<and> take 1 (filter is_digit phone) = ''9'')
        \<and> length (filter is_digit phone) \<noteq> 8 \<longrightarrow>
        formatChileanPhone phone = ''+56'' @ filter is_digit phone)"
proof -
  have 1: "formatChileanPhone ''912345678'' = ''+56912345678''"
    by (simp add: formatChileanPhone_def is_digit_def startsWith_def)
  have 2: "formatChileanPhone ''12345678'' = ''+56912345678''"
    by (simp add: formatChileanPhone_def is_digit_def startsWith_def)
  have 3: "formatChileanPhone ''56912345678'' = ''+56912345678''"
    by (simp add: formatChileanPhone_def is_digit_def startsWith_def)
  have 4: "formatChileanPhone ''9 1234-5678'' = ''+56912345678''"
    by (simp add: formatChileanPhone_def is_digit_def startsWith_def)
  have 5: "formatChileanPhone ''+56 (9) 1234.5678'' = ''+56912345678''"
    by (simp add: formatChileanPhone_def is_digit_def startsWith_def)
  have 6: "formatChileanPhone phone = formatChileanPhone (filter is_digit phone)"
    by (simp add: formatChileanPhone_def)
  have 7: "filter is_digit (formatChileanPhone phone) = tl (formatChileanPhone phone)"
    by (rule formatChileanPhone_digits)
  have 8: "length (filter is_digit phone) = 11 \<and> take 2 (filter is_digit phone) = ''56'' \<longrightarrow>
        formatChileanPhone phone = ''+'' @ filter is_digit phone"
    by (subst formatChileanPhone_rules) simp
  have 9: "length (filter is_digit phone) = 9 \<and> take 1 (filter is_digit phone) = ''9'' \<longrightarrow>
        formatChileanPhone phone = ''+56'' @ filter is_digit phone"
    by (subst formatChileanPhone_rules) simp
  have 10: "length (filter is_digit phone) = 8 \<longrightarrow>
        formatChileanPhone phone = ''+569'' @ filter is_digit phone"
    by (subst formatChileanPhone_rules) simp
  have 11: "\<not> (length (filter is_digit phone) = 11 \<and> take 2 (filter is_digit phone) = ''56'')
        \<and> \<not> (length (filter is_digit phone) = 9 \<and> take 1 (filter is_digit phone) = ''9'')
        \<and> length (filter is_digit phone) \<noteq> 8 \<longrightarrow>
        formatChileanPhone phone = ''+56'' @ filter is_digit phone"
    by (subst formatChileanPhone_rules) auto
  show ?thesis
    by (intro conjI 1 2 3 4 5 6 7 8 9 10 11)
qed

theorem formatChileanPhone_normalizes_witness:
  "length (filter is_digit ''(2) 2345 6789'') = 9
   \<and> take 1 (filter is_digit ''(2) 2345 6789'') = ''2''
   \<and> formatChileanPhone ''(2) 2345 6789'' = ''+56223456789''
   \<and> length (filter is_digit ''9 8765-4321'') = 9
   \<and> take 1 (filter is_digit ''9 8765-4321'') = ''9''
   \<and> formatChileanPhone ''9 8765-4321'' = ''+56987654321''
   \<and> length (filter is_digit ''8765 4321'') = 8
   \<and> formatChileanPhone ''8765 4321'' = ''+56987654321''
   \<and> length (filter is_digit ''56 9 8765 4321'') = 11
   \<and> take 2 (filter is_digit ''56 9 8765 4321'') = ''56''
   \<and> formatChileanPhone ''56 9 8765 4321'' = ''+56987654321''"
proof -
  have d1: "filter is_digit ''(2) 2345 6789'' = ''223456789''"
    and d2: "filter is_digit ''9 8765-4321'' = ''987654321''"
    and d3: "filter is_digit ''8765 4321'' = ''87654321''"
    and d4: "filter is_digit ''56 9 8765 4321'' = ''56987654321''"
    by (simp_all add: is_digit_def)
  have "\<not> (length (filter is_digit ''(2) 2345 6789'') = 11
            \<and> take 2 (filter is_digit ''(2) 2345 6789'') = ''56'')
        \<and> \<not> (length (filter is_digit ''(2) 2345 6789'') = 9
            \<and> take 1 (filter is_digit ''(2) 2345 6789'') = ''9'')
        \<and> length (filter is_digit ''(2) 2345 6789'') \<noteq> 8 \<longrightarrow>
        formatChileanPhone ''(2) 2345 6789'' = ''+56'' @ filter is_digit ''(2) 2345 6789''"
    using formatChileanPhone_normalizes [of "''(2) 2345 6789''"] by blast
  then have r1: "formatChileanPhone ''(2) 2345 6789'' = ''+56223456789''"
    unfolding d1 by simp
  have "length (filter is_digit ''9 8765-4321'') = 9
          \<and> take 1 (filter is_digit ''9 8765-4321'') = ''9'' \<longrightarrow>
        formatChileanPhone ''9 8765-4321'' = ''+56'' @ filter is_digit ''9 8765-4321''"
    using formatChileanPhone_normalizes [of "''9 8765-4321''"] by blast
  then have r2: "formatChileanPhone ''9 8765-4321'' = ''+56987654321''"
    unfolding d2 by simp
  have "length (filter is_digit ''8765 4321'') = 8 \<longrightarrow>
        formatChileanPhone ''8765 4321'' = ''+569'' @ filter is_digit ''8765 4321''"
    using formatChileanPhone_normalizes [of "''8765 4321''"] by blast
  then have r3: "formatChileanPhone ''8765 4321'' = ''+56987654321''"
    unfolding d3 by simp
  have "length (filter is_digit ''56 9 8765 4321'') = 11
          \<and> take 2 (filter is_digit ''56 9 8765 4321'') = ''56'' \<longrightarrow>
        formatChileanPhone ''56 9 8765 4321'' = ''+'' @ filter is_digit ''56 9 8765 4321''"
    using formatChileanPhone_normalizes [of "''56 9 8765 4321''"] by blast
  then have r4: "formatChileanPhone ''56 9 8765 4321'' = ''+56987654321''"
    unfolding d4 by simp
  show ?thesis
    unfolding d1 d2 d3 d4 r1 r2 r3 r4 by simp
qed

section \<open>Length and order of the call history\<close>

text \<open>
  Claim C8, as the code has it. For an appointment of the table that has a phone, after
  any sequence of call initiations the call history is the old one followed by one
  record per placed call: its length is the old length plus the number of placed calls
  (so \<open>N\<close> from an empty history), the old records are its first part, and its
  timestamps are the old timestamps followed by the clock readings of the placed calls
  in the order of the calls. So the timestamps are non-decreasing exactly when the old
  timestamps followed by those clock readings are.
\<close>

theorem call_history_grows_by_placed_calls:
  assumes "getByFhirId t k = Some d" and "has_phone d"
  shows "length (history_of (handleCalls k cs t) k)
           = length (current_history d) + length (placed cs)
       \<and> take (length (current_history d)) (history_of (handleCalls k cs t) k)
           = current_history d
       \<and> map timestamp (history_of (handleCalls k cs t) k)
           = map timestamp (current_history d) @ map snd (placed cs)
       \<and> (sorted (map timestamp (history_of (handleCalls k cs t) k))
            \<longleftrightarrow> sorted (map timestamp (current_history d) @ map snd (placed cs)))"
proof -
  have ts: "map timestamp (map (\<lambda>(sid, now). newCall sid now) (placed cs)) = map snd (placed cs)"
    by (induction cs rule: placed.induct) (simp_all add: timestamp_newCall)
  have h: "history_of (handleCalls k cs t) k
       = current_history d @ map (\<lambda>(sid, now). newCall sid now) (placed cs)"
    using assms by (rule handleCalls_history)
  have m: "map timestamp (history_of (handleCalls k cs t) k)
       = map timestamp (current_history d) @ map snd (placed cs)"
    unfolding h map_append ts ..
  show ?thesis
    unfolding m by (simp add: h)
qed

theorem call_history_grows_by_placed_calls_witness:
  "getByFhirId example_table ''A1'' = Some (insert_appointment example_args)
   \<and> has_phone (insert_appointment example_args)
   \<and> length (history_of (handleCalls ''A1''
         [(Call_placed (Some ''CA1''), ''2026-03-01T09:00:00''),
          (Call_rejected, ''2026-03-01T09:05:00''),
          (Call_placed (Some ''CA2''), ''2026-03-01T09:10:00'')] example_table) ''A1'') = 2
   \<and> map timestamp (history_of (handleCalls ''A1''
         [(Call_placed (Some ''CA1''), ''2026-03-01T09:00:00''),
          (Call_rejected, ''2026-03-01T09:05:00''),
          (Call_placed (Some ''CA2''), ''2026-03-01T09:10:00'')] example_table) ''A1'')
       = [''2026-03-01T09:00:00'', ''2026-03-01T09:10:00'']"
proof -
  have e: "current_history (insert_appointment example_args) = []"
    by (simp add: current_history_def insert_appointment_def appointment_args.extend_def)
  from call_history_grows_by_placed_calls [OF example_table_lookup example_has_phone,
      of "[(Call_placed (Some ''CA1''), ''2026-03-01T09:00:00''),
          (Call_rejected, ''2026-03-01T09:05:00''),
          (Call_placed (Some ''CA2''), ''2026-03-01T09:10:00'')]"]
  show ?thesis
    using example_table_lookup example_has_phone by (simp add: e)
qed

text \<open>
  Two calls placed on the same appointment, the first with the clock at 23:50:00 and the
  second with the clock at 23:10:00 of the same civil day (the readings on both sides of
  the hour that is repeated when daylight saving time ends): the history has length 2
  and its timestamps decrease.
\<close>

theorem call_timestamps_counterexample:
  "length (history_of (handleCalls ''A1''
           [(Call_placed (Some ''CA1''), ''2026-04-04T23:50:00''),
            (Call_placed (Some ''CA2''), ''2026-04-04T23:10:00'')] example_table) ''A1'') = 2
   \<and> \<not> sorted (map timestamp (history_of (handleCalls ''A1''
           [(Call_placed (Some ''CA1''), ''2026-04-04T23:50:00''),
            (Call_placed (Some ''CA2''), ''2026-04-04T23:10:00'')] example_table) ''A1''))"
proof -
  have "map timestamp (history_of (handleCalls ''A1''
           [(Call_placed (Some ''CA1''), ''2026-04-04T23:50:00''),
            (Call_placed (Some ''CA2''), ''2026-04-04T23:10:00'')] example_table) ''A1'')
        = [''2026-04-04T23:50:00'', ''2026-04-04T23:10:00'']"
    unfolding handleCalls_history [OF example_table_lookup example_has_phone]
    by (simp add: current_history_def insert_appointment_def appointment_args.extend_def
        timestamp_newCall)
  moreover have "\<not> sorted [''2026-04-04T23:50:00'', ''2026-04-04T23:10:00'']"
    by simp
  ultimately show ?thesis
    by (metis length_map length_Cons list.size(3) numeral_2_eq_2)
qed

section \<open>Upsert and the call history\<close>

text \<open>
  Claim C9. The argument object of the appointment upsert has no \<open>callHistory\<close> field
  (\<open>appointment_args\<close> is the document without it), and an upsert on an existing
  appointment returns without an error and leaves the call history of that appointment,
  and of every other document, as it was. So does a whole run of the resolver, whatever
  the source returns and wherever the run stops: the documents that were in the table
  before the run have the call histories they had.
\<close>

theorem upsert_keeps_callHistory:
  assumes "getByFhirId t (fhirId a) = Some d"
  shows "(\<exists>t' d'. appointments_upsert a t = Inr t'
           \<and> getByFhirId t' (fhirId a) = Some d'
           \<and> callHistory d' = callHistory d
           \<and> map callHistory t' = map callHistory t)
       \<and> take (length t) (map callHistory (db_appointments (snd (syncFhirData srv t pts))))
           = map callHistory t"
proof -
  from assms obtain i where i: "by_fhirId t (fhirId a) = Some i" and d: "t ! i = d"
    using getByFhirId_Some by blast
  let ?d' = "patch_appointment d a"
  have "getByFhirId (t[i := ?d']) (fhirId a) = Some ?d'"
    using i by (rule getByFhirId_update) (rule fhirId_patch)
  then show ?thesis
    using i d appointments_upsert_callHistory [OF i] syncFhirData_history_prefix [of t srv pts]
    by (simp add: appointments_upsert_existing callHistory_patch)
qed

theorem upsert_keeps_callHistory_witness:
  "getByFhirId example_called (fhirId example_args) = Some (example_called ! 0)
   \<and> (\<exists>t' d'. appointments_upsert example_args example_called = Inr t'
         \<and> getByFhirId t' (fhirId example_args) = Some d'
         \<and> callHistory d' = Some [newCall (Some ''CA1'') ''2026-03-01T09:00:00''])
   \<and> take 1 (map callHistory
                (db_appointments (snd (syncFhirData example_server example_called []))))
       = [Some [newCall (Some ''CA1'') ''2026-03-01T09:00:00'']]"
proof -
  have h: "getByFhirId example_called (fhirId example_args) = Some (example_called ! 0)"
    using example_called_lookup by (simp add: example_args_def)
  have l: "length example_called = 1" and m: "map callHistory example_called
             = [Some [newCall (Some ''CA1'') ''2026-03-01T09:00:00'']]"
    by (simp_all add: example_called_def)
  from upsert_keeps_callHistory [OF h, of example_server "[]"] h show ?thesis
    unfolding l m by (auto simp: example_called_history)
qed

section \<open>Mutations on an unknown appointment\<close>

text \<open>
  Claim C10. When no document of the table has the external id, \<open>recordCall\<close>,
  \<open>markContacted\<close> and \<open>updateCallOutcome\<close> (with any index and any of the four
  outcomes) return without an error and the table is the one they were given.
\<close>

theorem unknown_id_mutations_are_noops:
  assumes "k \<notin> fhirId ` set t"
  shows "recordCall k sid ts t = Inr t
       \<and> markContacted k c t = Inr t
       \<and> updateCallOutcome k callIndex (outcome_literal oc) t = Inr t"
proof -
  have "by_fhirId t k = None"
    using assms by (simp add: by_fhirId_None_iff)
  then show ?thesis
    by (simp add: recordCall_def markContacted_def updateCallOutcome_def
        updateCallOutcome_handler_def parse_outcome_literal)
qed

theorem unknown_id_mutations_are_noops_witness:
  "''B7'' \<notin> fhirId ` set example_table
   \<and> recordCall ''B7'' (Some ''CA1'') ''2026-03-01T09:00:00'' example_table = Inr example_table
   \<and> markContacted ''B7'' True example_table = Inr example_table
   \<and> updateCallOutcome ''B7'' 0 (outcome_literal Failed) example_table = Inr example_table"
proof -
  have h: "''B7'' \<notin> fhirId ` set example_table"
    by (simp add: example_table_def insert_appointment_def appointment_args.extend_def
        example_args_def)
  from unknown_id_mutations_are_noops [OF h] h show ?thesis by blast
qed

end
